theory Spec2Isabelle
  imports Main
begin

section \<open>Data model of \<open>src/query/search.ts\<close>\<close>

text \<open>
  Values that occur in filters and keys.  Only the distinction between the shapes matters
  to the search builder; numbers are kept as integers.
\<close>

datatype jsval = JUndefined | JNull | JBool bool | JNum int | JStr string

text \<open>
  \<open>Filter<any>\<close>: either a bare value (an equality condition) or an array
  \<open>[operator, ...operands]\<close>.  \<open>isArray\<close> tells the two apart.
\<close>

datatype filter_val = Scalar jsval | Tuple "jsval list"

text \<open>
  One entry of \<open>ComplexFilters<T>\<close>: a \<open>Filters<T>\<close> object (attribute name to
  filter), the string \<open>'OR'\<close> pushed by \<open>or()\<close>, or the filter array of a child search
  pushed by \<open>group()\<close>.
\<close>

datatype entry = Group "string \<rightharpoonup> filter_val" | OR | Nested "entry list"

datatype attribute = Attribute (attr_name: string)

datatype projection = P_ALL | P_KEYS_ONLY | P_INCLUDE

text \<open>
  The index metadata read by the search.  The declarations themselves
  (\<open>src/metadata/index.ts\<close>) are not part of the sources at hand; the fields are the ones
  \<open>search.ts\<close> reads: a primary key has \<open>hash\<close> and an optional \<open>range\<close> and no
  \<open>name\<close>; a global secondary index has \<open>name\<close>, \<open>hash\<close>, an optional \<open>range\<close>
  and an optional \<open>projection\<close>; a local secondary index has \<open>name\<close>, \<open>range\<close> and an
  optional \<open>projection\<close>, and no \<open>hash\<close> of its own.
\<close>

record primary_key =
  pk_hash :: attribute
  pk_range :: "attribute option"

record gsi =
  gsi_name :: string
  gsi_hash :: attribute
  gsi_range :: "attribute option"
  gsi_projection :: "projection option"

record lsi =
  lsi_name :: string
  lsi_range :: attribute
  lsi_projection :: "projection option"

text \<open>\<open>tableClass.schema\<close>, as far as the search reads it.\<close>

record schema =
  schema_name :: string
  primaryKey :: primary_key
  globalSecondaryIndexes :: "gsi list"
  localSecondaryIndexes :: "lsi list"

text \<open>
  What \<open>indexMetadata\<close> can hold in \<open>getInput\<close>: the primary key, a global secondary
  index (also the result of \<open>Object.assign({ hash: ... }, lsi)\<close>, which the source casts to
  that type), or the metadata of a local secondary index passed on as it is.
\<close>

datatype index_metadata = PrimaryKeyMeta primary_key | GlobalMeta gsi | LocalMeta lsi

section \<open>Index selection\<close>

text \<open>
  The own index keys of a string or an array are the decimal numerals with no leading
  zero (\<open>0\<close>, or digits of which the first is not \<open>0\<close>) below its length.  \<open>index_of\<close> reads such a
  numeral.
\<close>

definition digit_of :: "char \<Rightarrow> nat option" where
  "digit_of c =
     map_of [(CHR ''0'', 0), (CHR ''1'', 1), (CHR ''2'', 2), (CHR ''3'', 3), (CHR ''4'', 4),
             (CHR ''5'', 5), (CHR ''6'', 6), (CHR ''7'', 7), (CHR ''8'', 8), (CHR ''9'', 9)] c"

fun digits_value :: "string \<Rightarrow> nat \<Rightarrow> nat option" where
  "digits_value [] acc = Some acc"
| "digits_value (c # cs) acc =
     (case digit_of c of None \<Rightarrow> None | Some d \<Rightarrow> digits_value cs (10 * acc + d))"

definition index_of :: "string \<Rightarrow> nat option" where
  "index_of k =
     (case k of
        [] \<Rightarrow> None
      | c # cs \<Rightarrow> if c = CHR ''0'' \<and> cs \<noteq> [] then None else digits_value k 0)"

text \<open>
  What \<open>get\<close> can hand back from an entry of \<open>this.filters\<close>: a filter (also the
  characters and the length of the string \<open>'OR'\<close> and the length of an array, which are
  bare values), or, from a nested array, one of its elements.
\<close>

datatype found = Value filter_val | Element entry

text \<open>
  \<open>has(filters, name)\<close> and \<open>get(filters, name)\<close> of lodash on one entry, in one
  function: the result is \<open>None\<close> where \<open>has\<close> is false and the value \<open>get\<close> returns
  otherwise.  The name is taken as one key, which is what lodash does with a name that
  holds neither \<open>.\<close> nor \<open>[\<close> (a name that holds one may be walked as a path instead;
  that is not modelled).  \<open>has\<close> asks for an own property.  A \<open>Filters\<close> object owns
  its attribute names; the string \<open>'OR'\<close> owns \<open>0\<close>, \<open>1\<close> and \<open>length\<close>; a nested
  array owns its indices and \<open>length\<close>.
\<close>

fun get_own :: "entry \<Rightarrow> string \<Rightarrow> found option" where
  "get_own (Group filters) k = map_option Value (filters k)"
| "get_own OR k =
     (if k = ''length'' then Some (Value (Scalar (JNum 2)))
      else (case index_of k of
              None \<Rightarrow> None
            | Some i \<Rightarrow>
                if i = 0 then Some (Value (Scalar (JStr ''O'')))
                else if i = 1 then Some (Value (Scalar (JStr ''R'')))
                else None))"
| "get_own (Nested sub) k =
     (if k = ''length'' then Some (Value (Scalar (JNum (int (length sub)))))
      else (case index_of k of
              None \<Rightarrow> None
            | Some i \<Rightarrow> if i < length sub then Some (Element (sub ! i)) else None))"

text \<open>
  \<open>includes(keyConditionAllowedOperators, operator)\<close>.  The constant lives in
  \<open>src/query/expression.ts\<close>, which is not at hand: it is the parameter \<open>kc\<close>, a list
  of operator names, throughout.
\<close>

fun includes_op :: "string list \<Rightarrow> jsval \<Rightarrow> bool" where
  "includes_op kc (JStr operator) = (operator \<in> set kc)"
| "includes_op kc v = False"

text \<open>
  The test both loops of \<open>checkFilters\<close> make on a filter: a bare value passes; an array
  passes when its first element (\<open>undefined\<close> for the empty array) is an allowed operator.
\<close>

fun allowedAsKey :: "string list \<Rightarrow> filter_val \<Rightarrow> bool" where
  "allowedAsKey kc (Scalar v) = True"
| "allowedAsKey kc (Tuple []) = includes_op kc JUndefined"
| "allowedAsKey kc (Tuple (operator # operands)) = includes_op kc operator"

text \<open>
  The same test on whatever \<open>get\<close> found.  An element of a nested array that is itself
  an array passes when its first element is an allowed operator: that element is an entry,
  and only the string \<open>'OR'\<close> can be equal to an operator name.  An element that is a
  \<open>Filters\<close> object or the string \<open>'OR'\<close> is no array and passes.
\<close>

fun allowedFound :: "string list \<Rightarrow> found \<Rightarrow> bool" where
  "allowedFound kc (Value f) = allowedAsKey kc f"
| "allowedFound kc (Element (Nested [])) = includes_op kc JUndefined"
| "allowedFound kc (Element (Nested (OR # es))) = includes_op kc (JStr ''OR'')"
| "allowedFound kc (Element (Nested (e # es))) = False"
| "allowedFound kc (Element e) = True"

text \<open>
  \<open>MagicSearch.checkFilters(hash, range)\<close> over \<open>this.filters\<close>; every \<open>continue\<close> of
  the source is the recursive call on the rest of the list.
\<close>

fun checkFilters :: "string list \<Rightarrow> entry list \<Rightarrow> attribute \<Rightarrow> attribute option \<Rightarrow> bool" where
  "checkFilters kc [] hash rng = False"
| "checkFilters kc (filters # rest) hash rng =
     (case get_own filters (attr_name hash) of
        None \<Rightarrow> checkFilters kc rest hash rng
      | Some hashFilter \<Rightarrow>
          if \<not> allowedFound kc hashFilter then checkFilters kc rest hash rng
          else (case rng of
                  None \<Rightarrow> True
                | Some r \<Rightarrow>
                    (case get_own filters (attr_name r) of
                       None \<Rightarrow> checkFilters kc rest hash rng
                     | Some rangeFilter \<Rightarrow>
                         if \<not> allowedFound kc rangeFilter then checkFilters kc rest hash rng
                         else True)))"

text \<open>\<open>index.projection === 'INCLUDE' || index.projection === 'KEYS_ONLY'\<close>\<close>

definition restricted :: "projection option \<Rightarrow> bool" where
  "restricted p = (p = Some P_INCLUDE \<or> p = Some P_KEYS_ONLY)"

text \<open>\<open>Object.assign({ hash: primaryKey.hash }, index)\<close> for a local secondary index.\<close>

definition assignHash :: "attribute \<Rightarrow> lsi \<Rightarrow> gsi" where
  "assignHash hash index =
     \<lparr>gsi_name = lsi_name index, gsi_hash = hash, gsi_range = Some (lsi_range index),
      gsi_projection = lsi_projection index\<rparr>"

text \<open>The loop over \<open>globalSecondaryIndexes\<close> in \<open>findAvailableIndex\<close>.\<close>

fun findGlobal :: "string list \<Rightarrow> entry list \<Rightarrow> gsi list \<Rightarrow> gsi option" where
  "findGlobal kc fs [] = None"
| "findGlobal kc fs (index # rest) =
     (if restricted (gsi_projection index) then findGlobal kc fs rest
      else if checkFilters kc fs (gsi_hash index) (gsi_range index) then Some index
      else findGlobal kc fs rest)"

text \<open>The loop over \<open>localSecondaryIndexes\<close> in \<open>findAvailableIndex\<close>.\<close>

fun findLocal :: "string list \<Rightarrow> entry list \<Rightarrow> attribute \<Rightarrow> lsi list \<Rightarrow> gsi option" where
  "findLocal kc fs hash [] = None"
| "findLocal kc fs hash (index # rest) =
     (if restricted (lsi_projection index) then findLocal kc fs hash rest
      else if checkFilters kc fs hash (Some (lsi_range index)) then Some (assignHash hash index)
      else findLocal kc fs hash rest)"

text \<open>\<open>MagicSearch.findAvailableIndex()\<close>; \<open>None\<close> is the \<open>undefined\<close> it falls off with.\<close>

definition findAvailableIndex :: "string list \<Rightarrow> schema \<Rightarrow> entry list \<Rightarrow> index_metadata option" where
  "findAvailableIndex kc sch fs =
     (let pk = primaryKey sch in
      if checkFilters kc fs (pk_hash pk) (pk_range pk)
      then Some (PrimaryKeyMeta pk)
      else (case findGlobal kc fs (globalSecondaryIndexes sch) of
              Some index \<Rightarrow> Some (GlobalMeta index)
            | None \<Rightarrow>
                (case findLocal kc fs (pk_hash pk) (localSecondaryIndexes sch) of
                   Some metadata \<Rightarrow> Some (GlobalMeta metadata)
                 | None \<Rightarrow> None)))"

section \<open>Requests and the collaborators of the search\<close>

type_synonym item = "string \<rightharpoonup> jsval"

text \<open>\<open>DynamoDB.ScanInput | DynamoDB.QueryInput\<close>; an absent field is \<open>None\<close>.\<close>

datatype select = SPECIFIC_ATTRIBUTES | COUNT

record request =
  TableName :: string
  ConsistentRead :: bool
  ExpressionAttributeNames :: "(string \<rightharpoonup> string) option"
  ExpressionAttributeValues :: "(string \<rightharpoonup> jsval) option"
  FilterExpression :: "string option"
  ProjectionExpression :: "string option"
  Select :: "select option"
  ScanIndexForward :: "bool option"
  Limit :: "int option"
  ExclusiveStartKey :: "item option"
  IndexName :: "string option"
  KeyConditionExpression :: "string option"

text \<open>\<open>DynamoDB.ScanOutput | DynamoDB.QueryOutput\<close>, and what the read capability throws.\<close>

record dynamo_output =
  Items :: "item list"
  Count :: int
  ScannedCount :: int
  LastEvaluatedKey :: "item option"

datatype dynamo_error = DynamoError string

text \<open>
  The errors the search raises: \<open>QueryError\<close> (message), the plain \<open>Error\<close> of
  \<open>page\<close> (message), and \<open>HelpfulError(ex, tableClass, input)\<close>.
\<close>

datatype error = QueryError string | Error string | HelpfulError dynamo_error schema request

text \<open>What \<open>buildQueryExpression\<close> and \<open>buildProjectionExpression\<close> hand back.\<close>

record query_expression =
  q_ExpressionAttributeNames :: "(string \<rightharpoonup> string) option"
  q_ExpressionAttributeValues :: "(string \<rightharpoonup> jsval) option"
  q_FilterExpression :: "string option"
  q_KeyConditionExpression :: "string option"

record projection_expression =
  p_ProjectionExpression :: "string option"
  p_ExpressionAttributeNames :: "(string \<rightharpoonup> string) option"

datatype operation = QueryOp | ScanOp

text \<open>
  The code \<open>search.ts\<close> calls and that is not at hand, as parameters:
  \<open>keyConditionAllowedOperators\<close> and \<open>buildQueryExpression\<close>
  (\<open>src/query/expression.ts\<close>), \<open>buildProjectionExpression\<close>
  (\<open>src/query/projection-expression.ts\<close>), the read capability
  \<open>tableClass.schema.dynamo.query / scan\<close>, which may fail and which changes a state
  of its own (\<open>'s\<close>), and the decoding of a raw item (second argument of the
  aggregator's \<open>fromDynamoOutput\<close>; the flag says whether absent attributes are
  tolerated).
\<close>

record ('s, 'd) deps =
  keyConditionAllowedOperators :: "string list"
  buildQueryExpression :: "schema \<Rightarrow> entry list \<Rightarrow> index_metadata option \<Rightarrow> query_expression"
  buildProjectionExpression ::
    "schema \<Rightarrow> string list \<Rightarrow> (string \<rightharpoonup> string) option \<Rightarrow> projection_expression"
  dynamo :: "'s \<Rightarrow> operation \<Rightarrow> request \<Rightarrow> (dynamo_error + dynamo_output) \<times> 's"
  decode :: "bool \<Rightarrow> item \<Rightarrow> 'd"

section \<open>The builder\<close>

datatype range_order = ASC | DESC

text \<open>
  The \<open>index\<close> option: a name, or a \<open>PrimaryKey\<close>, \<open>GlobalSecondaryIndex\<close> or
  \<open>LocalSecondaryIndex\<close> object, of which the search reads \<open>metadata\<close> only.
\<close>

datatype index_arg = ByName string | ByObject index_metadata

record magic_search_input =
  i_limit :: "int option"
  i_exclusiveStartKey :: "item option"
  i_attributes :: "string list option"
  i_projectionExpression :: "string option"
  i_rangeOrder :: "range_order option"
  i_consistent :: "bool option"
  i_returnOnlyCount :: "bool option"
  i_index :: "index_arg option"

text \<open>The state of a \<open>MagicSearch\<close>: \<open>tableClass\<close> (its schema), \<open>filters\<close>, \<open>input\<close>.\<close>

record magic_search =
  ms_tableClass :: schema
  ms_filters :: "entry list"
  ms_input :: magic_search_input

text \<open>The default \<open>{}\<close> of the constructor's \<open>input\<close>.\<close>

definition empty_input :: magic_search_input where
  "empty_input =
     \<lparr>i_limit = None, i_exclusiveStartKey = None, i_attributes = None,
      i_projectionExpression = None, i_rangeOrder = None, i_consistent = None,
      i_returnOnlyCount = None, i_index = None\<rparr>"

definition addFilterGroup :: "magic_search \<Rightarrow> (string \<rightharpoonup> filter_val) list \<Rightarrow> magic_search" where
  "addFilterGroup this fs = this\<lparr>ms_filters := ms_filters this @ map Group fs\<rparr>"

text \<open>\<open>new MagicSearch(tableClass, filters?, input = {})\<close>\<close>

definition new_MagicSearch ::
  "schema \<Rightarrow> (string \<rightharpoonup> filter_val) option \<Rightarrow> magic_search_input \<Rightarrow> magic_search" where
  "new_MagicSearch tbl fs inp =
     (let this = \<lparr>ms_tableClass = tbl, ms_filters = [], ms_input = inp\<rparr> in
      case fs of None \<Rightarrow> this | Some f \<Rightarrow> addFilterGroup this [f])"

text \<open>
  \<open>group(value)\<close>: the callback works on a fresh child search (here: it returns the
  child as it left it), and the child's filters become one entry of the parent.
\<close>

definition group :: "magic_search \<Rightarrow> (magic_search \<Rightarrow> magic_search) \<Rightarrow> magic_search" where
  "group this val =
     (let groupedSearch = val (new_MagicSearch (ms_tableClass this) None empty_input) in
      this\<lparr>ms_filters := ms_filters this @ [Nested (ms_filters groupedSearch)]\<rparr>)"

definition parenthesis :: "magic_search \<Rightarrow> (magic_search \<Rightarrow> magic_search) \<Rightarrow> magic_search" where
  "parenthesis this val = group this val"

definition or_b :: "magic_search \<Rightarrow> magic_search" where
  "or_b this = this\<lparr>ms_filters := ms_filters this @ [OR]\<rparr>"

definition and_b :: "magic_search \<Rightarrow> magic_search" where
  "and_b this = this"

definition limit :: "magic_search \<Rightarrow> int \<Rightarrow> magic_search" where
  "limit this n = this\<lparr>ms_input := (ms_input this)\<lparr>i_limit := Some n\<rparr>\<rparr>"

definition startAt :: "magic_search \<Rightarrow> item option \<Rightarrow> magic_search" where
  "startAt this k = this\<lparr>ms_input := (ms_input this)\<lparr>i_exclusiveStartKey := k\<rparr>\<rparr>"

definition attributes :: "magic_search \<Rightarrow> string list \<Rightarrow> magic_search" where
  "attributes this attributeNames =
     this\<lparr>ms_input := (ms_input this)
       \<lparr>i_attributes :=
          Some ((case i_attributes (ms_input this) of None \<Rightarrow> [] | Some a \<Rightarrow> a) @ attributeNames)\<rparr>\<rparr>"

definition count_b :: "magic_search \<Rightarrow> magic_search" where
  "count_b this = this\<lparr>ms_input := (ms_input this)\<lparr>i_returnOnlyCount := Some True\<rparr>\<rparr>"

definition consistent :: "magic_search \<Rightarrow> bool \<Rightarrow> magic_search" where
  "consistent this c = this\<lparr>ms_input := (ms_input this)\<lparr>i_consistent := Some c\<rparr>\<rparr>"

text \<open>\<open>using(index)\<close>; \<open>None\<close> is the \<open>null\<close> that clears the option.\<close>

definition using_b :: "magic_search \<Rightarrow> index_arg option \<Rightarrow> magic_search" where
  "using_b this index = this\<lparr>ms_input := (ms_input this)\<lparr>i_index := index\<rparr>\<rparr>"

datatype direction = Ascending | Descending

definition sort_b :: "magic_search \<Rightarrow> direction \<Rightarrow> magic_search" where
  "sort_b this d =
     (case d of
        Ascending \<Rightarrow> this\<lparr>ms_input := (ms_input this)\<lparr>i_rangeOrder := Some ASC\<rparr>\<rparr>
      | Descending \<Rightarrow> this\<lparr>ms_input := (ms_input this)\<lparr>i_rangeOrder := Some DESC\<rparr>\<rparr>)"

definition ascending :: "magic_search \<Rightarrow> magic_search" where
  "ascending this = sort_b this Ascending"

definition descending :: "magic_search \<Rightarrow> magic_search" where
  "descending this = sort_b this Descending"

section \<open>Compiling the request: \<open>getInput\<close>\<close>

text \<open>
  The two loops that look an index name up.  Neither has a \<open>break\<close>: the last index of
  that name is the one kept.
\<close>

fun byNameGlobal :: "string \<Rightarrow> gsi list \<Rightarrow> index_metadata option \<Rightarrow> index_metadata option" where
  "byNameGlobal indexName [] indexMetadata = indexMetadata"
| "byNameGlobal indexName (index # rest) indexMetadata =
     byNameGlobal indexName rest
       (if gsi_name index = indexName then Some (GlobalMeta index) else indexMetadata)"

fun byNameLocal ::
  "string \<Rightarrow> attribute \<Rightarrow> lsi list \<Rightarrow> index_metadata option \<Rightarrow> index_metadata option" where
  "byNameLocal indexName hash [] indexMetadata = indexMetadata"
| "byNameLocal indexName hash (index # rest) indexMetadata =
     byNameLocal indexName hash rest
       (if lsi_name index = indexName then Some (GlobalMeta (assignHash hash index))
        else indexMetadata)"

text \<open>
  \<open>(typeof this.input.index.metadata as any).hash\<close>: the operand of \<open>.hash\<close> is the
  string that \<open>typeof\<close> yields, which has no such property, whatever the metadata.
\<close>

definition typeof_hash :: "index_metadata \<Rightarrow> jsval" where
  "typeof_hash metadata = JUndefined"

text \<open>\<open>Object.assign({ hash: ... }, metadata)\<close>: a \<open>hash\<close> of the metadata's own wins.\<close>

fun assignMeta :: "attribute \<Rightarrow> index_metadata \<Rightarrow> index_metadata" where
  "assignMeta hash (LocalMeta index) = GlobalMeta (assignHash hash index)"
| "assignMeta hash metadata = metadata"

definition nonExistentIndex :: "schema \<Rightarrow> string \<Rightarrow> error" where
  "nonExistentIndex sch indexName =
     QueryError (''Attempted to perform '' @ schema_name sch
                 @ ''.search using non-existent index '' @ indexName)"

text \<open>Lines 301 to 339 of \<open>getInput\<close>: the value of \<open>indexMetadata\<close>, or the throw.\<close>

definition resolveIndex :: "string list \<Rightarrow> magic_search \<Rightarrow> error + index_metadata option" where
  "resolveIndex kc this =
     (let sch = ms_tableClass this in
      case i_index (ms_input this) of
        Some (ByName indexName) \<Rightarrow>
          (let found = byNameGlobal indexName (globalSecondaryIndexes sch) None;
               found' = (if found = None
                         then byNameLocal indexName (pk_hash (primaryKey sch))
                                (localSecondaryIndexes sch) found
                         else found)
           in if found' = None then Inl (nonExistentIndex sch indexName) else Inr found')
      | Some (ByObject metadata) \<Rightarrow>
          (if typeof_hash metadata = JStr ''undefined''
           then Inr (Some (assignMeta (pk_hash (primaryKey sch)) metadata))
           else Inr (Some metadata))
      | None \<Rightarrow> Inr (findAvailableIndex kc sch (ms_filters this)))"

text \<open>
  \<open>typeof indexMetadata.name === 'string'\<close>: the name of a secondary index; a primary
  key has none.
\<close>

fun metadata_name :: "index_metadata option \<Rightarrow> string option" where
  "metadata_name (Some (GlobalMeta index)) = Some (gsi_name index)"
| "metadata_name (Some (LocalMeta index)) = Some (lsi_name index)"
| "metadata_name (Some (PrimaryKeyMeta pk)) = None"
| "metadata_name None = None"

text \<open>Lines 341 to 393 of \<open>getInput\<close>, one \<open>let\<close> for each statement.\<close>

definition compileInput ::
  "('s, 'd) deps \<Rightarrow> magic_search \<Rightarrow> index_metadata option \<Rightarrow> request" where
  "compileInput env this indexMetadata =
     (let sch = ms_tableClass this;
          inp = ms_input this;
          query = buildQueryExpression env sch (ms_filters this) indexMetadata;
          input0 = \<lparr>TableName = schema_name sch, ConsistentRead = False,
                    ExpressionAttributeNames = q_ExpressionAttributeNames query,
                    ExpressionAttributeValues = q_ExpressionAttributeValues query,
                    FilterExpression = q_FilterExpression query,
                    ProjectionExpression = None, Select = None, ScanIndexForward = None,
                    Limit = None, ExclusiveStartKey = None, IndexName = None,
                    KeyConditionExpression = None\<rparr>;
          input1 = (case i_projectionExpression inp of
                      Some pe \<Rightarrow> input0\<lparr>ProjectionExpression := Some pe\<rparr>
                    | None \<Rightarrow>
                        (case i_attributes inp of
                           Some attrs \<Rightarrow>
                             (let expression = buildProjectionExpression env sch attrs
                                                 (ExpressionAttributeNames input0)
                              in input0\<lparr>Select := Some SPECIFIC_ATTRIBUTES,
                                        ProjectionExpression := p_ProjectionExpression expression,
                                        ExpressionAttributeNames :=
                                          p_ExpressionAttributeNames expression\<rparr>)
                         | None \<Rightarrow> input0));
          input2 = (if i_rangeOrder inp = Some DESC
                    then input1\<lparr>ScanIndexForward := Some False\<rparr> else input1);
          input3 = (case i_limit inp of
                      Some l \<Rightarrow> input2\<lparr>Limit := Some l\<rparr> | None \<Rightarrow> input2);
          input4 = (case i_exclusiveStartKey inp of
                      Some k \<Rightarrow> input3\<lparr>ExclusiveStartKey := Some k\<rparr> | None \<Rightarrow> input3);
          input5 = (case i_consistent inp of
                      Some c \<Rightarrow> input4\<lparr>ConsistentRead := c\<rparr> | None \<Rightarrow> input4);
          input6 = (case metadata_name indexMetadata of
                      Some n \<Rightarrow> input5\<lparr>IndexName := Some n\<rparr> | None \<Rightarrow> input5);
          input7 = (if i_returnOnlyCount inp = Some True
                    then (let counted = input6\<lparr>Select := Some COUNT\<rparr> in
                          if ProjectionExpression counted \<noteq> None
                          then counted\<lparr>ProjectionExpression := None\<rparr> else counted)
                    else input6)
      in (case q_KeyConditionExpression query of
            Some k \<Rightarrow> input7\<lparr>KeyConditionExpression := Some k\<rparr>
          | None \<Rightarrow> input7))"

definition getInput :: "('s, 'd) deps \<Rightarrow> magic_search \<Rightarrow> error + request" where
  "getInput env this =
     (case resolveIndex (keyConditionAllowedOperators env) this of
        Inl e \<Rightarrow> Inl e
      | Inr indexMetadata \<Rightarrow> Inr (compileInput env this indexMetadata))"

section \<open>Pages\<close>

text \<open>\<open>QueryOutput<T>\<close>: one page, or several merged.\<close>

record 'd query_output =
  items :: "'d list"
  count :: int
  scannedCount :: int
  lastEvaluatedKey :: "item option"

text \<open>
  Modelled from the spec: \<open>QueryOutput.fromDynamoOutput\<close> (\<open>src/query/output.ts\<close> is
  not at hand).  A page result holds the items, each decoded (tolerating absent
  attributes when the flag is set), the count, the scanned count and the continuation
  token of the response.
\<close>

definition fromDynamoOutput ::
  "('s, 'd) deps \<Rightarrow> schema \<Rightarrow> dynamo_output \<Rightarrow> bool \<Rightarrow> 'd query_output" where
  "fromDynamoOutput env tbl out hasProjection =
     \<lparr>items = map (decode env hasProjection) (Items out), count = Count out,
      scannedCount = ScannedCount out, lastEvaluatedKey = LastEvaluatedKey out\<rparr>"

text \<open>
  Modelled from the spec: \<open>QueryOutput.fromSeveralOutputs\<close> (\<open>src/query/output.ts\<close> is
  not at hand).  Items are concatenated in page order, count and scanned count are summed,
  and the continuation token is the last page's (absent when there is no page).
\<close>

definition fromSeveralOutputs :: "schema \<Rightarrow> 'd query_output list \<Rightarrow> 'd query_output" where
  "fromSeveralOutputs tbl outputs =
     \<lparr>items = concat (map items outputs), count = sum_list (map count outputs),
      scannedCount = sum_list (map scannedCount outputs),
      lastEvaluatedKey = (case outputs of [] \<Rightarrow> None | _ \<Rightarrow> lastEvaluatedKey (last outputs))\<rparr>"

definition scanDirectionMessage :: string where
  "scanDirectionMessage =
     ''Cannot use specify a sort direction, range order, or use ScanIndexForward on a scan operation. Try specifying the index being used.''"

text \<open>
  \<open>MagicSearch.page(input)\<close>.  The result is what the promise settles to, the \<open>input\<close>
  object as the call leaves it (the scan branch deletes \<open>ScanIndexForward\<close> from it) and
  the state of the read capability.
\<close>

definition page ::
  "('s, 'd) deps \<Rightarrow> schema \<Rightarrow> 's \<Rightarrow> request \<Rightarrow> (error + 'd query_output) \<times> request \<times> 's" where
  "page env tbl s input =
     (let hasProjection = (ProjectionExpression input = None) in
      if KeyConditionExpression input \<noteq> None then
        (case dynamo env s QueryOp input of
           (Inl ex, s') \<Rightarrow> (Inl (HelpfulError ex tbl input), input, s')
         | (Inr out, s') \<Rightarrow> (Inr (fromDynamoOutput env tbl out (\<not> hasProjection)), input, s'))
      else if ScanIndexForward input = Some False then
        (Inl (Error scanDirectionMessage), input, s)
      else
        (let input' = input\<lparr>ScanIndexForward := None\<rparr> in
         case dynamo env s ScanOp input' of
           (Inl ex, s') \<Rightarrow> (Inl (HelpfulError ex tbl input'), input', s')
         | (Inr out, s') \<Rightarrow> (Inr (fromDynamoOutput env tbl out (\<not> hasProjection)), input', s')))"

text \<open>\<open>MagicSearch.exec()\<close>\<close>

definition exec :: "('s, 'd) deps \<Rightarrow> magic_search \<Rightarrow> 's \<Rightarrow> (error + 'd query_output) \<times> 's" where
  "exec env this s =
     (case getInput env this of
        Inl e \<Rightarrow> (Inl e, s)
      | Inr input \<Rightarrow> (case page env (ms_tableClass this) s input of (r, input', s') \<Rightarrow> (r, s')))"

text \<open>\<open>page == null || page.lastEvaluatedKey != null\<close>, the condition of both loops.\<close>

fun more :: "'d query_output option \<Rightarrow> bool" where
  "more None = True"
| "more (Some pg) = (lastEvaluatedKey pg \<noteq> None)"

text \<open>\<open>if (page?.lastEvaluatedKey != null) input.ExclusiveStartKey = page.lastEvaluatedKey\<close>\<close>

fun carry :: "'d query_output option \<Rightarrow> request \<Rightarrow> request" where
  "carry None input = input"
| "carry (Some pg) input =
     (case lastEvaluatedKey pg of
        None \<Rightarrow> input
      | Some k \<Rightarrow> input\<lparr>ExclusiveStartKey := Some k\<rparr>)"

text \<open>
  The loop of \<open>all()\<close>, on the loop's variables.  It need not end: nothing bounds the
  number of pages a store hands out, so the result is an option and \<open>None\<close> stands for
  a loop that runs forever.  A rejected page ends the call with the error alone.
\<close>

partial_function (option) all_loop ::
  "('s, 'd) deps \<Rightarrow> schema \<Rightarrow> 's \<Rightarrow> request \<Rightarrow> 'd query_output option \<Rightarrow> 'd query_output list
     \<Rightarrow> ((error + 'd query_output) \<times> 's) option" where
  "all_loop env tbl s input pg outputs =
     (if more pg then
        (case page env tbl s (carry pg input) of
           (Inl e, input', s') \<Rightarrow> Some (Inl e, s')
         | (Inr p, input', s') \<Rightarrow> all_loop env tbl s' input' (Some p) (outputs @ [p]))
      else Some (Inr (fromSeveralOutputs tbl outputs), s))"

text \<open>\<open>MagicSearch.all()\<close>\<close>

definition all_b :: "('s, 'd) deps \<Rightarrow> magic_search \<Rightarrow> 's \<Rightarrow> ((error + 'd query_output) \<times> 's) option" where
  "all_b env this s =
     (case getInput env this of
        Inl e \<Rightarrow> Some (Inl e, s)
      | Inr input \<Rightarrow> all_loop env (ms_tableClass this) s input None [])"

text \<open>The loop of \<open>minimum(minimum)\<close>, with \<open>count\<close> among the loop's variables.\<close>

partial_function (option) minimum_loop ::
  "('s, 'd) deps \<Rightarrow> schema \<Rightarrow> int \<Rightarrow> 's \<Rightarrow> request \<Rightarrow> 'd query_output option \<Rightarrow> int
     \<Rightarrow> 'd query_output list \<Rightarrow> ((error + 'd query_output) \<times> 's) option" where
  "minimum_loop env tbl minimum s input pg cnt outputs =
     (if more pg then
        (case page env tbl s (carry pg input) of
           (Inl e, input', s') \<Rightarrow> Some (Inl e, s')
         | (Inr p, input', s') \<Rightarrow>
             (let cnt' = cnt + count p; outputs' = outputs @ [p] in
              if cnt' \<ge> minimum \<or> lastEvaluatedKey p = None
              then Some (Inr (fromSeveralOutputs tbl outputs'), s')
              else minimum_loop env tbl minimum s' input' (Some p) cnt' outputs'))
      else Some (Inr (fromSeveralOutputs tbl outputs), s))"

text \<open>\<open>MagicSearch.minimum(minimum)\<close>\<close>

definition minimum ::
  "('s, 'd) deps \<Rightarrow> magic_search \<Rightarrow> int \<Rightarrow> 's \<Rightarrow> ((error + 'd query_output) \<times> 's) option" where
  "minimum env this n s =
     (case getInput env this of
        Inl e \<Rightarrow> Some (Inl e, s)
      | Inr input \<Rightarrow> minimum_loop env (ms_tableClass this) n s input None 0 [])"

section \<open>Notions the properties are stated with\<close>

text \<open>
  A filter that is present and may stand in a key condition: what \<open>checkFilters\<close> asks
  of the hash attribute's entry of a group, and of the range attribute's.
\<close>

fun keyEligible :: "string list \<Rightarrow> filter_val option \<Rightarrow> bool" where
  "keyEligible kc None = False"
| "keyEligible kc (Some f) = allowedAsKey kc f"

text \<open>
  A name that lodash reads as one key whatever the object: it holds neither \<open>.\<close> nor
  \<open>[\<close>.  An ordinary attribute name is, besides, no own key of a string or an array:
  neither \<open>length\<close> nor an index.
\<close>

definition oneKey :: "string \<Rightarrow> bool" where
  "oneKey k = (CHR ''.'' \<notin> set k \<and> CHR ''['' \<notin> set k)"

definition ordinaryName :: "string \<Rightarrow> bool" where
  "ordinaryName k = (oneKey k \<and> k \<noteq> ''length'' \<and> index_of k = None)"

text \<open>
  A request that \<open>page\<close> does not reject, and what \<open>page\<close> then hands to the read
  capability: the operation, and the request as sent.
\<close>

definition accepted :: "request \<Rightarrow> bool" where
  "accepted input = (KeyConditionExpression input \<noteq> None \<or> ScanIndexForward input \<noteq> Some False)"

definition issued :: "request \<Rightarrow> operation \<times> request" where
  "issued input =
     (if KeyConditionExpression input \<noteq> None then (QueryOp, input)
      else (ScanOp, input\<lparr>ScanIndexForward := None\<rparr>))"

text \<open>A request with a continuation token, when there is one, as its start key.\<close>

fun startingAt :: "item option \<Rightarrow> request \<Rightarrow> request" where
  "startingAt None input = input"
| "startingAt (Some k) input = input\<lparr>ExclusiveStartKey := Some k\<rparr>"

text \<open>
  The requests a paging loop sends when the store answers with the given pages one after
  the other: each request is the previous one as sent, with the previous page's token as
  its start key.
\<close>

fun requests :: "item option \<Rightarrow> request \<Rightarrow> dynamo_output list \<Rightarrow> (operation \<times> request) list" where
  "requests token input [] = []"
| "requests token input (out # outs) =
     issued (startingAt token input)
       # requests (LastEvaluatedKey out) (snd (issued (startingAt token input))) outs"

fun token_of :: "'d query_output option \<Rightarrow> item option" where
  "token_of None = None"
| "token_of (Some pg) = lastEvaluatedKey pg"

text \<open>The page result \<open>page\<close> makes of a response to the request \<open>input\<close>.\<close>

definition pageOf :: "('s, 'd) deps \<Rightarrow> schema \<Rightarrow> request \<Rightarrow> dynamo_output \<Rightarrow> 'd query_output" where
  "pageOf env tbl input out = fromDynamoOutput env tbl out (ProjectionExpression input \<noteq> None)"

text \<open>
  A read capability that plays back a sequence of responses: each call takes the next
  response and is recorded with its operation and request; when no response is left the
  call fails.  Its state is the responses left and the calls so far.
\<close>

type_synonym store = "(dynamo_error + dynamo_output) list \<times> (operation \<times> request) list"

definition scripted :: "store \<Rightarrow> operation \<Rightarrow> request \<Rightarrow> (dynamo_error + dynamo_output) \<times> store" where
  "scripted s operation input =
     (case fst s of
        [] \<Rightarrow> (Inl (DynamoError ''no response left''), ([], snd s @ [(operation, input)]))
      | r # rs \<Rightarrow> (r, (rs, snd s @ [(operation, input)])))"

text \<open>A chain of builder calls, applied from left to right.\<close>

definition chain :: "(magic_search \<Rightarrow> magic_search) list \<Rightarrow> magic_search \<Rightarrow> magic_search" where
  "chain calls this = fold (\<lambda>call b. call b) calls this"

section \<open>A table and collaborators to run the definitions on\<close>

definition users :: schema where
  "users =
     \<lparr>schema_name = ''users'',
      primaryKey = \<lparr>pk_hash = Attribute ''userId'', pk_range = None\<rparr>,
      globalSecondaryIndexes =
        [\<lparr>gsi_name = ''emailKeys'', gsi_hash = Attribute ''email'', gsi_range = None,
          gsi_projection = Some P_KEYS_ONLY\<rparr>,
         \<lparr>gsi_name = ''byEmail'', gsi_hash = Attribute ''email'', gsi_range = None,
          gsi_projection = Some P_ALL\<rparr>],
      localSecondaryIndexes =
        [\<lparr>lsi_name = ''byCreated'', lsi_range = Attribute ''createdAt'',
          lsi_projection = None\<rparr>]\<rparr>"

text \<open>
  The operators of a key condition as the specification lists them (equality, ordering
  comparisons, prefix match, range between); a compiler that yields a key condition when
  it is given an index and none otherwise; the play-back store; items left as they are.
\<close>

definition sample_deps :: "(store, item) deps" where
  "sample_deps =
     \<lparr>keyConditionAllowedOperators = [''='', ''<'', ''<='', ''>'', ''>='', ''beginsWith'', ''between''],
      buildQueryExpression = (\<lambda>sch fs indexMetadata.
        \<lparr>q_ExpressionAttributeNames = None, q_ExpressionAttributeValues = None,
         q_FilterExpression = Some ''#a0 = :v0'',
         q_KeyConditionExpression =
           (case indexMetadata of None \<Rightarrow> None | Some m \<Rightarrow> Some ''#k0 = :k0'')\<rparr>),
      buildProjectionExpression = (\<lambda>sch attrs names.
        \<lparr>p_ProjectionExpression = Some ''#p0'', p_ExpressionAttributeNames = names\<rparr>),
      dynamo = scripted,
      decode = (\<lambda>tolerant raw. raw)\<rparr>"

text \<open>A response of ten items, with or without a continuation token.\<close>

definition tenItems :: "string \<Rightarrow> item option \<Rightarrow> dynamo_output" where
  "tenItems label token =
     \<lparr>Items = replicate 10 [''id'' \<mapsto> JStr label], Count = 10, ScannedCount = 10,
      LastEvaluatedKey = token\<rparr>"

text \<open>A search on \<open>status\<close>, which no index of \<open>users\<close> has as a key.\<close>

definition byStatus :: magic_search where
  "byStatus = new_MagicSearch users (Some [''status'' \<mapsto> Scalar (JStr ''active'')]) empty_input"


section \<open>Index selection: properties\<close>

lemma ordinary_not_in_or: "ordinaryName k \<Longrightarrow> get_own OR k = None"
  by (simp add: ordinaryName_def)

lemma ordinary_not_in_nested: "ordinaryName k \<Longrightarrow> get_own (Nested sub) k = None"
  by (simp add: ordinaryName_def)

lemma checkFilters_iff:
  assumes "ordinaryName (attr_name hash)"
  shows "checkFilters kc fs hash rng =
     (\<exists>m. Group m \<in> set fs \<and> keyEligible kc (m (attr_name hash)) \<and>
          (case rng of None \<Rightarrow> True | Some r \<Rightarrow> keyEligible kc (m (attr_name r))))"
proof (induction fs)
  case Nil
  show ?case by simp
next
  case (Cons e fs)
  show ?case
  proof (cases e)
    case (Group m)
    then show ?thesis using Cons.IH
      by (cases "m (attr_name hash)"; cases rng; auto split: option.splits)
  next
    case OR
    then show ?thesis using Cons.IH ordinary_not_in_or [OF assms] by simp
  next
    case (Nested sub)
    then show ?thesis using Cons.IH ordinary_not_in_nested [OF assms] by simp
  qed
qed

lemma checkFilters_group_suffices:
  assumes "Group m \<in> set fs" and "keyEligible kc (m (attr_name hash))"
    and "case rng of None \<Rightarrow> True | Some r \<Rightarrow> keyEligible kc (m (attr_name r))"
  shows "checkFilters kc fs hash rng"
  using assms(1)
proof (induction fs)
  case Nil
  then show ?case by simp
next
  case (Cons e fs)
  show ?case
  proof (cases "e = Group m")
    case True
    then show ?thesis using assms(2,3)
      by (cases "m (attr_name hash)"; cases rng; auto split: option.splits)
  next
    case False
    then have "checkFilters kc fs hash rng" using Cons by simp
    then show ?thesis by (auto split: option.splits)
  qed
qed

lemma findGlobal_find:
  "findGlobal kc fs gs =
     find (\<lambda>g. \<not> restricted (gsi_projection g) \<and> checkFilters kc fs (gsi_hash g) (gsi_range g)) gs"
  by (induction gs) auto

lemma findLocal_find:
  "findLocal kc fs hash ls =
     map_option (assignHash hash)
       (find (\<lambda>l. \<not> restricted (lsi_projection l) \<and> checkFilters kc fs hash (Some (lsi_range l))) ls)"
  by (induction ls) auto

lemma compileInput_KeyCondition:
  "KeyConditionExpression (compileInput env this im) =
     q_KeyConditionExpression (buildQueryExpression env (ms_tableClass this) (ms_filters this) im)"
  by (simp add: compileInput_def Let_def split: option.splits)

lemma compileInput_IndexName: "IndexName (compileInput env this im) = metadata_name im"
  by (simp add: compileInput_def Let_def split: option.splits)

lemma resolveIndex_automatic:
  "i_index (ms_input this) = None \<Longrightarrow>
   resolveIndex kc this = Inr (findAvailableIndex kc (ms_tableClass this) (ms_filters this))"
  by (simp add: resolveIndex_def)

text \<open>
  Claim C1.  Automatic index selection returns the first candidate that passes
  \<open>checkFilters\<close>, in this order: the primary key; the global secondary indexes in the
  order of the catalog, those with projection \<open>INCLUDE\<close> or \<open>KEYS_ONLY\<close> left out;
  the local secondary indexes in the order of the catalog, those with such a projection
  left out, checked with the table's hash attribute and the index's own range attribute,
  and returned as a descriptor that joins the table's hash to the index's fields.  When no
  candidate passes, nothing is returned: \<open>getInput\<close> then compiles with no index and names
  none, and, the compiler giving no key condition when it is given no index, the request
  has no key condition and \<open>page\<close> sends it as a scan.
\<close>

theorem findAvailableIndex_priority:
  "findAvailableIndex kc sch fs =
     (if checkFilters kc fs (pk_hash (primaryKey sch)) (pk_range (primaryKey sch))
      then Some (PrimaryKeyMeta (primaryKey sch))
      else (case find (\<lambda>g. \<not> restricted (gsi_projection g)
                            \<and> checkFilters kc fs (gsi_hash g) (gsi_range g))
                   (globalSecondaryIndexes sch) of
              Some g \<Rightarrow> Some (GlobalMeta g)
            | None \<Rightarrow>
                (case find (\<lambda>l. \<not> restricted (lsi_projection l)
                                \<and> checkFilters kc fs (pk_hash (primaryKey sch)) (Some (lsi_range l)))
                       (localSecondaryIndexes sch) of
                   Some l \<Rightarrow>
                     Some (GlobalMeta \<lparr>gsi_name = lsi_name l, gsi_hash = pk_hash (primaryKey sch),
                                       gsi_range = Some (lsi_range l),
                                       gsi_projection = lsi_projection l\<rparr>)
                 | None \<Rightarrow> None)))
   \<and> (i_index (ms_input this) = None
        \<and> findAvailableIndex (keyConditionAllowedOperators env) (ms_tableClass this) (ms_filters this) = None
        \<and> q_KeyConditionExpression
            (buildQueryExpression env (ms_tableClass this) (ms_filters this) None) = None
      \<longrightarrow> getInput env this = Inr (compileInput env this None)
          \<and> IndexName (compileInput env this None) = None
          \<and> KeyConditionExpression (compileInput env this None) = None
          \<and> fst (issued (compileInput env this None)) = ScanOp)"
proof (intro conjI impI)
  show "findAvailableIndex kc sch fs =
     (if checkFilters kc fs (pk_hash (primaryKey sch)) (pk_range (primaryKey sch))
      then Some (PrimaryKeyMeta (primaryKey sch))
      else (case find (\<lambda>g. \<not> restricted (gsi_projection g)
                            \<and> checkFilters kc fs (gsi_hash g) (gsi_range g))
                   (globalSecondaryIndexes sch) of
              Some g \<Rightarrow> Some (GlobalMeta g)
            | None \<Rightarrow>
                (case find (\<lambda>l. \<not> restricted (lsi_projection l)
                                \<and> checkFilters kc fs (pk_hash (primaryKey sch)) (Some (lsi_range l)))
                       (localSecondaryIndexes sch) of
                   Some l \<Rightarrow>
                     Some (GlobalMeta \<lparr>gsi_name = lsi_name l, gsi_hash = pk_hash (primaryKey sch),
                                       gsi_range = Some (lsi_range l),
                                       gsi_projection = lsi_projection l\<rparr>)
                 | None \<Rightarrow> None)))"
    by (simp add: findAvailableIndex_def Let_def findGlobal_find findLocal_find assignHash_def
             split: option.splits)
next
  assume h: "i_index (ms_input this) = None
        \<and> findAvailableIndex (keyConditionAllowedOperators env) (ms_tableClass this) (ms_filters this) = None
        \<and> q_KeyConditionExpression
            (buildQueryExpression env (ms_tableClass this) (ms_filters this) None) = None"
  then show "getInput env this = Inr (compileInput env this None)"
    by (simp add: getInput_def resolveIndex_automatic)
  show "IndexName (compileInput env this None) = None"
    by (simp add: compileInput_IndexName)
  from h show kc: "KeyConditionExpression (compileInput env this None) = None"
    by (simp add: compileInput_KeyCondition)
  then show "fst (issued (compileInput env this None)) = ScanOp"
    by (simp add: issued_def)
qed

text \<open>
  On the table \<open>users\<close>: a filter on \<open>email\<close> alone passes over the primary key and
  over the \<open>KEYS_ONLY\<close> index and selects \<open>byEmail\<close>; a filter on \<open>status\<close> selects
  nothing and compiles to a scan.
\<close>

lemma users_select_email:
  "findAvailableIndex (keyConditionAllowedOperators sample_deps) users
     [Group [''email'' \<mapsto> Scalar (JStr ''a@b.com'')]]
   = Some (GlobalMeta \<lparr>gsi_name = ''byEmail'', gsi_hash = Attribute ''email'', gsi_range = None,
          gsi_projection = Some P_ALL\<rparr>)"
  by (simp add: findAvailableIndex_def users_def sample_deps_def restricted_def)

lemma byStatus_fields:
  "ms_tableClass byStatus = users" "ms_input byStatus = empty_input"
  "ms_filters byStatus = [Group [''status'' \<mapsto> Scalar (JStr ''active'')]]"
  by (simp_all add: byStatus_def new_MagicSearch_def addFilterGroup_def)

lemma byStatus_no_index:
  "findAvailableIndex (keyConditionAllowedOperators sample_deps) users
     [Group [''status'' \<mapsto> Scalar (JStr ''active'')]] = None"
  by (simp add: findAvailableIndex_def users_def sample_deps_def restricted_def assignHash_def)

theorem findAvailableIndex_priority_witness:
  "findAvailableIndex (keyConditionAllowedOperators sample_deps) users
     [Group [''email'' \<mapsto> Scalar (JStr ''a@b.com'')]]
   = Some (GlobalMeta \<lparr>gsi_name = ''byEmail'', gsi_hash = Attribute ''email'', gsi_range = None,
          gsi_projection = Some P_ALL\<rparr>)
   \<and> i_index (ms_input byStatus) = None
   \<and> findAvailableIndex (keyConditionAllowedOperators sample_deps) (ms_tableClass byStatus)
       (ms_filters byStatus) = None
   \<and> getInput sample_deps byStatus = Inr (compileInput sample_deps byStatus None)
   \<and> KeyConditionExpression (compileInput sample_deps byStatus None) = None
   \<and> fst (issued (compileInput sample_deps byStatus None)) = ScanOp"
proof -
  have idx: "i_index (ms_input byStatus) = None"
    by (simp add: byStatus_fields empty_input_def)
  have none: "findAvailableIndex (keyConditionAllowedOperators sample_deps) (ms_tableClass byStatus)
       (ms_filters byStatus) = None"
    by (simp add: byStatus_fields byStatus_no_index)
  have kc: "q_KeyConditionExpression
            (buildQueryExpression sample_deps (ms_tableClass byStatus) (ms_filters byStatus) None) = None"
    by (simp add: sample_deps_def)
  show ?thesis
    using findAvailableIndex_priority
            [of "keyConditionAllowedOperators sample_deps" users
                "[Group [''email'' \<mapsto> Scalar (JStr ''a@b.com'')]]" byStatus sample_deps]
          idx none kc users_select_email
    by simp
qed





lemma ordinary_userId: "ordinaryName ''userId''"
  by (simp add: ordinaryName_def oneKey_def index_of_def digit_of_def)

lemma oneKey_createdAt: "oneKey ''createdAt''"
  by (simp add: oneKey_def)

text \<open>
  Claim C2, as the specification words it, fails, in two ways.  \<open>checkFilters\<close> looks at
  each top-level entry by itself and never at what stands between the entries: after
  \<open>new MagicSearch(users, {userId: 'u1'}).or()\<close> and a further group on \<open>status\<close>, the
  condition on \<open>userId\<close> is one side of a disjunction, and the primary key is selected
  all the same.  And \<open>checkFilters\<close> asks lodash's \<open>has\<close> and \<open>get\<close> of every entry,
  the string \<open>'OR'\<close> among them, which owns \<open>length\<close>: a hash attribute of that name
  qualifies by the marker alone, with no condition on it anywhere.
\<close>

theorem or_branch_counterexample:
  "ms_filters (addFilterGroup
                 (or_b (new_MagicSearch users (Some [''userId'' \<mapsto> Scalar (JStr ''u1'')]) empty_input))
                 [[''status'' \<mapsto> Scalar (JStr ''active'')]])
     = [Group [''userId'' \<mapsto> Scalar (JStr ''u1'')], OR,
        Group [''status'' \<mapsto> Scalar (JStr ''active'')]]
   \<and> checkFilters (keyConditionAllowedOperators sample_deps)
        [Group [''userId'' \<mapsto> Scalar (JStr ''u1'')], OR,
         Group [''status'' \<mapsto> Scalar (JStr ''active'')]]
        (Attribute ''userId'') None
   \<and> findAvailableIndex (keyConditionAllowedOperators sample_deps) users
        [Group [''userId'' \<mapsto> Scalar (JStr ''u1'')], OR,
         Group [''status'' \<mapsto> Scalar (JStr ''active'')]]
       = Some (PrimaryKeyMeta \<lparr>pk_hash = Attribute ''userId'', pk_range = None\<rparr>)
   \<and> checkFilters (keyConditionAllowedOperators sample_deps)
        [Group [''status'' \<mapsto> Scalar (JStr ''active'')], OR,
         Group [''role'' \<mapsto> Scalar (JStr ''admin'')]]
        (Attribute ''length'') None"
  by (simp add: new_MagicSearch_def addFilterGroup_def or_b_def findAvailableIndex_def users_def)

text \<open>
  Claim C2, amended.  For an index whose hash attribute has an ordinary name (neither
  \<open>length\<close> nor an index, and read by lodash as one key, as the range attribute's name
  is to be): the index qualifies only through a condition on the hash attribute that may
  stand in a key condition and that stands in a top-level group, whether or not an
  \<open>'OR'\<close> marker separates that group from the other entries; when the index has a range
  attribute, that group must hold such a condition on the range attribute as well; and a
  match on the hash alone is enough exactly when the index has no range attribute.
\<close>

theorem checkFilters_any_group:
  assumes "ordinaryName (attr_name hash)" and "oneKey (attr_name r)"
  shows "(checkFilters kc fs hash None \<longrightarrow>
            (\<exists>m. Group m \<in> set fs \<and> keyEligible kc (m (attr_name hash))))
       \<and> (checkFilters kc fs hash (Some r) \<longrightarrow>
            (\<exists>m. Group m \<in> set fs \<and> keyEligible kc (m (attr_name hash))
                 \<and> keyEligible kc (m (attr_name r))))
       \<and> (Group m \<in> set fs \<and> keyEligible kc (m (attr_name hash)) \<longrightarrow>
            checkFilters kc fs hash None)
       \<and> ((\<forall>m. Group m \<in> set fs \<longrightarrow> \<not> keyEligible kc (m (attr_name r))) \<longrightarrow>
            \<not> checkFilters kc fs hash (Some r))"
proof (intro conjI impI)
  assume "checkFilters kc fs hash None"
  then show "\<exists>m. Group m \<in> set fs \<and> keyEligible kc (m (attr_name hash))"
    by (simp add: checkFilters_iff [OF assms(1)])
next
  assume "checkFilters kc fs hash (Some r)"
  then show "\<exists>m. Group m \<in> set fs \<and> keyEligible kc (m (attr_name hash))
                 \<and> keyEligible kc (m (attr_name r))"
    by (simp add: checkFilters_iff [OF assms(1)])
next
  assume "Group m \<in> set fs \<and> keyEligible kc (m (attr_name hash))"
  then show "checkFilters kc fs hash None"
    by (intro checkFilters_group_suffices [of m]) simp_all
next
  assume "\<forall>m. Group m \<in> set fs \<longrightarrow> \<not> keyEligible kc (m (attr_name r))"
  then show "\<not> checkFilters kc fs hash (Some r)"
    by (auto simp: checkFilters_iff [OF assms(1)])
qed

theorem checkFilters_any_group_witness:
  "ordinaryName (attr_name (Attribute ''userId'')) \<and> oneKey (attr_name (Attribute ''createdAt''))
   \<and> checkFilters [''='']
        [Group [''userId'' \<mapsto> Tuple [JStr ''='', JStr ''u1'']], OR,
         Group [''status'' \<mapsto> Scalar (JStr ''active'')]]
        (Attribute ''userId'') None
   \<and> \<not> checkFilters [''='']
        [Group [''userId'' \<mapsto> Tuple [JStr ''='', JStr ''u1'']], OR,
         Group [''status'' \<mapsto> Scalar (JStr ''active'')]]
        (Attribute ''userId'') (Some (Attribute ''createdAt''))"
proof -
  have names: "ordinaryName (attr_name (Attribute ''userId''))" "oneKey (attr_name (Attribute ''createdAt''))"
    by (simp_all add: ordinary_userId oneKey_createdAt)
  have present: "Group [''userId'' \<mapsto> Tuple [JStr ''='', JStr ''u1'']]
                   \<in> set [Group [''userId'' \<mapsto> Tuple [JStr ''='', JStr ''u1'']], OR,
                           Group [''status'' \<mapsto> Scalar (JStr ''active'')]]
                 \<and> keyEligible [''='']
                     ([''userId'' \<mapsto> Tuple [JStr ''='', JStr ''u1'']] (attr_name (Attribute ''userId'')))"
    by simp
  have absent: "\<forall>m. Group m \<in> set [Group [''userId'' \<mapsto> Tuple [JStr ''='', JStr ''u1'']], OR,
                                     Group [''status'' \<mapsto> Scalar (JStr ''active'')]]
                    \<longrightarrow> \<not> keyEligible [''=''] (m (attr_name (Attribute ''createdAt'')))"
    by auto
  note inst = checkFilters_any_group [OF names, of "[''='']"
                "[Group [''userId'' \<mapsto> Tuple [JStr ''='', JStr ''u1'']], OR,
                  Group [''status'' \<mapsto> Scalar (JStr ''active'')]]"
                "[''userId'' \<mapsto> Tuple [JStr ''='', JStr ''u1'']]"]
  from inst present have yes: "checkFilters [''='']
        [Group [''userId'' \<mapsto> Tuple [JStr ''='', JStr ''u1'']], OR,
         Group [''status'' \<mapsto> Scalar (JStr ''active'')]]
        (Attribute ''userId'') None"
    by blast
  from inst absent have no: "\<not> checkFilters [''='']
        [Group [''userId'' \<mapsto> Tuple [JStr ''='', JStr ''u1'']], OR,
         Group [''status'' \<mapsto> Scalar (JStr ''active'')]]
        (Attribute ''userId'') (Some (Attribute ''createdAt''))"
    by blast
  from names yes no show ?thesis by simp
qed




section \<open>Compiling the request: properties\<close>

lemma find_snoc:
  "find P (xs @ [x]) = (case find P xs of Some y \<Rightarrow> Some y | None \<Rightarrow> if P x then Some x else None)"
  by (induction xs) auto

lemma byNameGlobal_last:
  "byNameGlobal n gs found =
     (case find (\<lambda>g. gsi_name g = n) (rev gs) of
        Some g \<Rightarrow> Some (GlobalMeta g)
      | None \<Rightarrow> found)"
  by (induction gs arbitrary: found) (auto simp: find_snoc split: option.splits)

lemma byNameLocal_last:
  "byNameLocal n hash ls found =
     (case find (\<lambda>l. lsi_name l = n) (rev ls) of
        Some l \<Rightarrow> Some (GlobalMeta (assignHash hash l))
      | None \<Rightarrow> found)"
  by (induction ls arbitrary: found) (auto simp: find_snoc split: option.splits)

lemma resolveIndex_byName:
  assumes "i_index (ms_input this) = Some (ByName n)"
  shows "resolveIndex kc this =
     (case find (\<lambda>g. gsi_name g = n) (rev (globalSecondaryIndexes (ms_tableClass this))) of
        Some g \<Rightarrow> Inr (Some (GlobalMeta g))
      | None \<Rightarrow>
          (case find (\<lambda>l. lsi_name l = n) (rev (localSecondaryIndexes (ms_tableClass this))) of
             Some l \<Rightarrow> Inr (Some (GlobalMeta (assignHash (pk_hash (primaryKey (ms_tableClass this))) l)))
           | None \<Rightarrow> Inl (nonExistentIndex (ms_tableClass this) n)))"
  using assms
  by (simp add: resolveIndex_def Let_def byNameGlobal_last byNameLocal_last split: option.splits)

lemma resolveIndex_byObject:
  assumes "i_index (ms_input this) = Some (ByObject metadata)"
  shows "resolveIndex kc this = Inr (Some metadata)"
  using assms by (simp add: resolveIndex_def typeof_hash_def)

lemma resolveIndex_explicit:
  assumes "i_index (ms_input this) \<noteq> None"
  shows "resolveIndex kc this = resolveIndex kc' (this\<lparr>ms_filters := fs'\<rparr>)"
  using assms by (auto simp: resolveIndex_def split: index_arg.splits)

text \<open>
  Claim C6.  With an index supplied by the caller the automatic selection has no part:
  the index \<open>getInput\<close> compiles with does not depend on the filters nor on the table of
  key-condition operators.  An index object is used as it is.  An index name is looked up
  among the global secondary indexes first and, only when none has the name, among the
  local ones, where the match is returned with the table's hash attribute joined to it
  (where several indexes of a class share the name, the loop keeps the last one).  A name
  that neither class has raises the \<open>QueryError\<close>.
\<close>

theorem explicit_index_resolution:
  "(i_index (ms_input this) \<noteq> None \<longrightarrow>
      resolveIndex kc this = resolveIndex kc' (this\<lparr>ms_filters := fs'\<rparr>))
   \<and> (i_index (ms_input this) = Some (ByObject metadata) \<longrightarrow>
        getInput env this = Inr (compileInput env this (Some metadata)))
   \<and> (i_index (ms_input this) = Some (ByName n) \<longrightarrow>
        getInput env this =
          (case find (\<lambda>g. gsi_name g = n) (rev (globalSecondaryIndexes (ms_tableClass this))) of
             Some g \<Rightarrow> Inr (compileInput env this (Some (GlobalMeta g)))
           | None \<Rightarrow>
               (case find (\<lambda>l. lsi_name l = n) (rev (localSecondaryIndexes (ms_tableClass this))) of
                  Some l \<Rightarrow>
                    Inr (compileInput env this
                           (Some (GlobalMeta
                                    \<lparr>gsi_name = lsi_name l,
                                     gsi_hash = pk_hash (primaryKey (ms_tableClass this)),
                                     gsi_range = Some (lsi_range l),
                                     gsi_projection = lsi_projection l\<rparr>)))
                | None \<Rightarrow>
                    Inl (QueryError (''Attempted to perform '' @ schema_name (ms_tableClass this)
                                     @ ''.search using non-existent index '' @ n)))))
   \<and> (i_index (ms_input this) = Some (ByName n)
        \<and> (\<forall>g \<in> set (globalSecondaryIndexes (ms_tableClass this)). gsi_name g \<noteq> n)
        \<and> (\<forall>l \<in> set (localSecondaryIndexes (ms_tableClass this)). lsi_name l \<noteq> n) \<longrightarrow>
        getInput env this =
          Inl (QueryError (''Attempted to perform '' @ schema_name (ms_tableClass this)
                           @ ''.search using non-existent index '' @ n)))"
proof (intro conjI impI)
  assume "i_index (ms_input this) \<noteq> None"
  then show "resolveIndex kc this = resolveIndex kc' (this\<lparr>ms_filters := fs'\<rparr>)"
    by (rule resolveIndex_explicit)
next
  assume "i_index (ms_input this) = Some (ByObject metadata)"
  then show "getInput env this = Inr (compileInput env this (Some metadata))"
    by (simp add: getInput_def resolveIndex_byObject)
next
  assume "i_index (ms_input this) = Some (ByName n)"
  then show "getInput env this =
          (case find (\<lambda>g. gsi_name g = n) (rev (globalSecondaryIndexes (ms_tableClass this))) of
             Some g \<Rightarrow> Inr (compileInput env this (Some (GlobalMeta g)))
           | None \<Rightarrow>
               (case find (\<lambda>l. lsi_name l = n) (rev (localSecondaryIndexes (ms_tableClass this))) of
                  Some l \<Rightarrow>
                    Inr (compileInput env this
                           (Some (GlobalMeta
                                    \<lparr>gsi_name = lsi_name l,
                                     gsi_hash = pk_hash (primaryKey (ms_tableClass this)),
                                     gsi_range = Some (lsi_range l),
                                     gsi_projection = lsi_projection l\<rparr>)))
                | None \<Rightarrow>
                    Inl (QueryError (''Attempted to perform '' @ schema_name (ms_tableClass this)
                                     @ ''.search using non-existent index '' @ n))))"
    by (simp add: getInput_def resolveIndex_byName assignHash_def nonExistentIndex_def
             split: option.splits)
next
  assume h: "i_index (ms_input this) = Some (ByName n)
        \<and> (\<forall>g \<in> set (globalSecondaryIndexes (ms_tableClass this)). gsi_name g \<noteq> n)
        \<and> (\<forall>l \<in> set (localSecondaryIndexes (ms_tableClass this)). lsi_name l \<noteq> n)"
  then have "find (\<lambda>g. gsi_name g = n) (rev (globalSecondaryIndexes (ms_tableClass this))) = None"
    and "find (\<lambda>l. lsi_name l = n) (rev (localSecondaryIndexes (ms_tableClass this))) = None"
    by (auto simp: find_None_iff)
  with h show "getInput env this =
          Inl (QueryError (''Attempted to perform '' @ schema_name (ms_tableClass this)
                           @ ''.search using non-existent index '' @ n))"
    by (simp add: getInput_def resolveIndex_byName nonExistentIndex_def)
qed

theorem explicit_index_resolution_witness:
  "getInput sample_deps (using_b byStatus (Some (ByName ''byCreated''))) =
     Inr (compileInput sample_deps (using_b byStatus (Some (ByName ''byCreated'')))
            (Some (GlobalMeta \<lparr>gsi_name = ''byCreated'', gsi_hash = Attribute ''userId'',
                               gsi_range = Some (Attribute ''createdAt''),
                               gsi_projection = None\<rparr>)))
   \<and> getInput sample_deps (using_b byStatus (Some (ByName ''byEmail''))) =
     Inr (compileInput sample_deps (using_b byStatus (Some (ByName ''byEmail'')))
            (Some (GlobalMeta \<lparr>gsi_name = ''byEmail'', gsi_hash = Attribute ''email'',
                               gsi_range = None, gsi_projection = Some P_ALL\<rparr>)))
   \<and> getInput sample_deps (using_b byStatus (Some (ByName ''byAge''))) =
     Inl (QueryError ''Attempted to perform users.search using non-existent index byAge'')
   \<and> getInput sample_deps (using_b byStatus (Some (ByObject (PrimaryKeyMeta (primaryKey users))))) =
     Inr (compileInput sample_deps (using_b byStatus (Some (ByObject (PrimaryKeyMeta (primaryKey users)))))
            (Some (PrimaryKeyMeta (primaryKey users))))"
proof -
  have f: "ms_tableClass (using_b byStatus i) = users"
          "i_index (ms_input (using_b byStatus i)) = i" for i
    by (simp_all add: using_b_def byStatus_fields)
  show ?thesis
    using explicit_index_resolution
            [of "using_b byStatus (Some (ByName ''byCreated''))" "[]" "[]" "[]" "PrimaryKeyMeta (primaryKey users)" sample_deps
                "''byCreated''"]
          explicit_index_resolution
            [of "using_b byStatus (Some (ByName ''byEmail''))" "[]" "[]" "[]" "PrimaryKeyMeta (primaryKey users)" sample_deps
                "''byEmail''"]
          explicit_index_resolution
            [of "using_b byStatus (Some (ByName ''byAge''))" "[]" "[]" "[]" "PrimaryKeyMeta (primaryKey users)" sample_deps
                "''byAge''"]
          explicit_index_resolution
            [of "using_b byStatus (Some (ByObject (PrimaryKeyMeta (primaryKey users))))" "[]" "[]" "[]"
                "PrimaryKeyMeta (primaryKey users)" sample_deps "''x''"]
    by (simp add: f users_def)
qed

lemma compileInput_count:
  "i_returnOnlyCount (ms_input this) = Some True \<Longrightarrow>
   Select (compileInput env this im) = Some COUNT \<and> ProjectionExpression (compileInput env this im) = None"
  by (simp add: compileInput_def Let_def split: option.splits)

lemma getInput_compiled:
  "getInput env this = Inr input \<Longrightarrow> \<exists>im. input = compileInput env this im"
  by (auto simp: getInput_def split: sum.splits)

text \<open>
  Claim C8.  Whenever count-only mode is requested (\<open>count()\<close> sets the flag), the
  compiled request selects \<open>COUNT\<close> and has no projection expression, whatever
  projection was requested beside it.
\<close>

theorem count_discards_projection:
  assumes "getInput env this = Inr input" and "i_returnOnlyCount (ms_input this) = Some True"
  shows "Select input = Some COUNT \<and> ProjectionExpression input = None
         \<and> i_returnOnlyCount (ms_input (count_b that)) = Some True"
proof -
  obtain im where "input = compileInput env this im"
    using getInput_compiled [OF assms(1)] ..
  then show ?thesis
    using compileInput_count [OF assms(2), of env im] by (simp add: count_b_def)
qed

lemma status_search_compiles:
  assumes "i_index (ms_input this) = None" and "ms_tableClass this = users"
    and "ms_filters this = [Group [''status'' \<mapsto> Scalar (JStr ''active'')]]"
  shows "getInput sample_deps this = Inr (compileInput sample_deps this None)"
  using assms by (simp add: getInput_def resolveIndex_automatic byStatus_no_index)

theorem count_discards_projection_witness:
  "i_attributes (ms_input (count_b (attributes byStatus [''status'']))) = Some [''status'']
   \<and> i_returnOnlyCount (ms_input (count_b (attributes byStatus [''status'']))) = Some True
   \<and> (\<exists>input. getInput sample_deps (count_b (attributes byStatus [''status''])) = Inr input
        \<and> Select input = Some COUNT \<and> ProjectionExpression input = None)"
proof -
  let ?search = "count_b (attributes byStatus [''status''])"
  have flag: "i_returnOnlyCount (ms_input ?search) = Some True"
    by (simp add: count_b_def)
  have attrs: "i_attributes (ms_input ?search) = Some [''status'']"
    by (simp add: count_b_def attributes_def byStatus_fields empty_input_def)
  have compiled: "getInput sample_deps ?search = Inr (compileInput sample_deps ?search None)"
    by (rule status_search_compiles)
       (simp_all add: count_b_def attributes_def byStatus_fields empty_input_def)
  show ?thesis
    using count_discards_projection [OF compiled flag] flag attrs compiled
    by simp
qed

text \<open>
  Claim C9.  \<open>and()\<close> returns the builder it was called on, filters and options
  untouched; a chain of builder calls with \<open>and()\<close> put in anywhere ends in the same
  builder, and so in the same compiled request, as the chain without it.
\<close>

theorem and_is_noop:
  "and_b this = this
   \<and> ms_filters (and_b this) = ms_filters this
   \<and> ms_input (and_b this) = ms_input this
   \<and> getInput env (and_b this) = getInput env this
   \<and> chain (before @ and_b # after) this = chain (before @ after) this
   \<and> getInput env (chain (before @ and_b # after) this) = getInput env (chain (before @ after) this)"
  by (simp add: and_b_def chain_def)

theorem and_is_noop_witness:
  "ms_filters (chain [or_b, and_b, (\<lambda>b. limit b 5)] byStatus) =
     [Group [''status'' \<mapsto> Scalar (JStr ''active'')], OR]
   \<and> chain [or_b, and_b, (\<lambda>b. limit b 5)] byStatus = chain [or_b, (\<lambda>b. limit b 5)] byStatus"
  using and_is_noop [of byStatus sample_deps "[or_b]" "[\<lambda>b. limit b 5]"]
  by (simp add: chain_def or_b_def limit_def byStatus_fields)

section \<open>Pages: properties\<close>

lemma carry_startingAt: "carry pg input = startingAt (token_of pg) input"
  by (cases pg) (auto split: option.splits)

lemma accepted_startingAt [simp]: "accepted (startingAt token input) = accepted input"
  by (cases token) (auto simp: accepted_def)

lemma accepted_issued [simp]: "accepted (snd (issued input))"
  by (auto simp: accepted_def issued_def)

lemma projection_startingAt [simp]:
  "ProjectionExpression (startingAt token input) = ProjectionExpression input"
  by (cases token) auto

lemma projection_issued [simp]:
  "ProjectionExpression (snd (issued input)) = ProjectionExpression input"
  by (auto simp: issued_def)

lemma page_query:
  assumes "KeyConditionExpression input \<noteq> None"
  shows "page env tbl s input =
           (case dynamo env s QueryOp input of
              (Inl ex, s') \<Rightarrow> (Inl (HelpfulError ex tbl input), input, s')
            | (Inr out, s') \<Rightarrow> (Inr (pageOf env tbl input out), input, s'))"
  using assms by (auto simp: page_def pageOf_def Let_def split: prod.splits sum.splits)

lemma page_scan:
  assumes "KeyConditionExpression input = None" and "ScanIndexForward input \<noteq> Some False"
  shows "page env tbl s input =
           (case dynamo env s ScanOp (input\<lparr>ScanIndexForward := None\<rparr>) of
              (Inl ex, s') \<Rightarrow>
                (Inl (HelpfulError ex tbl (input\<lparr>ScanIndexForward := None\<rparr>)),
                 input\<lparr>ScanIndexForward := None\<rparr>, s')
            | (Inr out, s') \<Rightarrow>
                (Inr (pageOf env tbl input out), input\<lparr>ScanIndexForward := None\<rparr>, s'))"
  using assms by (auto simp: page_def pageOf_def Let_def split: prod.splits sum.splits)

lemma page_rejected:
  assumes "KeyConditionExpression input = None" and "ScanIndexForward input = Some False"
  shows "page env tbl s input = (Inl (Error scanDirectionMessage), input, s)"
  using assms by (simp add: page_def)

lemma page_failure:
  assumes "accepted input" and "dynamo env s (fst (issued input)) (snd (issued input)) = (Inl ex, s')"
  shows "page env tbl s input = (Inl (HelpfulError ex tbl (snd (issued input))), snd (issued input), s')"
proof (cases "KeyConditionExpression input = None")
  case True
  then have "ScanIndexForward input \<noteq> Some False" using assms(1) by (simp add: accepted_def)
  then show ?thesis using True assms(2) by (simp add: page_scan issued_def)
next
  case False
  then show ?thesis using assms(2) by (simp add: page_query issued_def)
qed

lemma page_success:
  assumes "accepted input" and "dynamo env s (fst (issued input)) (snd (issued input)) = (Inr out, s')"
  shows "page env tbl s input = (Inr (pageOf env tbl input out), snd (issued input), s')"
proof (cases "KeyConditionExpression input = None")
  case True
  then have "ScanIndexForward input \<noteq> Some False" using assms(1) by (simp add: accepted_def)
  then show ?thesis using True assms(2) by (simp add: page_scan issued_def)
next
  case False
  then show ?thesis using assms(2) by (simp add: page_query issued_def)
qed

text \<open>
  Claim C7.  A request with a key condition goes to \<open>query\<close>, one without (and not
  rejected for its scan direction, which is claim C5) goes to \<open>scan\<close>, each exactly once:
  the state of the read capability after \<open>page\<close> is its state after that one call.  When
  the call fails, \<open>page\<close> raises the \<open>HelpfulError\<close> that holds the failure, the table
  and the request as sent.  In \<open>all()\<close> and \<open>minimum()\<close> a fetch that fails ends the
  whole call with that error, whatever pages were gathered before: they are not returned.
\<close>

theorem page_failure_aborts:
  "(KeyConditionExpression input \<noteq> None \<longrightarrow>
      page env tbl s input =
        (case dynamo env s QueryOp input of
           (Inl ex, s') \<Rightarrow> (Inl (HelpfulError ex tbl input), input, s')
         | (Inr out, s') \<Rightarrow> (Inr (pageOf env tbl input out), input, s')))
   \<and> (KeyConditionExpression input = None \<and> ScanIndexForward input \<noteq> Some False \<longrightarrow>
      page env tbl s input =
        (case dynamo env s ScanOp (input\<lparr>ScanIndexForward := None\<rparr>) of
           (Inl ex, s') \<Rightarrow>
             (Inl (HelpfulError ex tbl (input\<lparr>ScanIndexForward := None\<rparr>)),
              input\<lparr>ScanIndexForward := None\<rparr>, s')
         | (Inr out, s') \<Rightarrow>
             (Inr (pageOf env tbl input out), input\<lparr>ScanIndexForward := None\<rparr>, s')))
   \<and> (more pg \<and> accepted input
        \<and> dynamo env s (fst (issued (carry pg input))) (snd (issued (carry pg input))) = (Inl ex, s') \<longrightarrow>
      all_loop env tbl s input pg outputs =
        Some (Inl (HelpfulError ex tbl (snd (issued (carry pg input)))), s')
      \<and> minimum_loop env tbl n s input pg cnt outputs =
        Some (Inl (HelpfulError ex tbl (snd (issued (carry pg input)))), s'))"
proof (intro conjI impI)
  assume "KeyConditionExpression input \<noteq> None"
  then show "page env tbl s input =
        (case dynamo env s QueryOp input of
           (Inl ex, s') \<Rightarrow> (Inl (HelpfulError ex tbl input), input, s')
         | (Inr out, s') \<Rightarrow> (Inr (pageOf env tbl input out), input, s'))"
    by (rule page_query)
next
  assume "KeyConditionExpression input = None \<and> ScanIndexForward input \<noteq> Some False"
  then show "page env tbl s input =
        (case dynamo env s ScanOp (input\<lparr>ScanIndexForward := None\<rparr>) of
           (Inl ex, s') \<Rightarrow>
             (Inl (HelpfulError ex tbl (input\<lparr>ScanIndexForward := None\<rparr>)),
              input\<lparr>ScanIndexForward := None\<rparr>, s')
         | (Inr out, s') \<Rightarrow>
             (Inr (pageOf env tbl input out), input\<lparr>ScanIndexForward := None\<rparr>, s'))"
    by (simp add: page_scan)
next
  assume h: "more pg \<and> accepted input
        \<and> dynamo env s (fst (issued (carry pg input))) (snd (issued (carry pg input))) = (Inl ex, s')"
  then have acc: "accepted (carry pg input)" by (simp add: carry_startingAt)
  have failed: "page env tbl s (carry pg input) =
          (Inl (HelpfulError ex tbl (snd (issued (carry pg input)))), snd (issued (carry pg input)), s')"
    using h by (intro page_failure [OF acc]) simp
  show "all_loop env tbl s input pg outputs =
        Some (Inl (HelpfulError ex tbl (snd (issued (carry pg input)))), s')"
    by (subst all_loop.simps) (use h failed in simp)
  show "minimum_loop env tbl n s input pg cnt outputs =
        Some (Inl (HelpfulError ex tbl (snd (issued (carry pg input)))), s')"
    by (subst minimum_loop.simps) (use h failed in simp)
qed


lemma scripted_next:
  "scripted (r # rs, log) operation input = (r, (rs, log @ [(operation, input)]))"
  by (simp add: scripted_def)

lemma page_scripted:
  assumes "dynamo env = scripted" and "accepted input"
  shows "page env tbl (Inr out # rs, log) input =
           (Inr (pageOf env tbl input out), snd (issued input), (rs, log @ [issued input]))"
  by (rule page_success [OF assms(2)]) (simp add: assms(1) scripted_next)

lemma compileInput_ScanIndexForward:
  "ScanIndexForward (compileInput env this im) =
     (if i_rangeOrder (ms_input this) = Some DESC then Some False else None)"
  by (simp add: compileInput_def Let_def split: option.splits)

lemma getInput_ScanIndexForward:
  assumes "getInput env this = Inr input"
  shows "ScanIndexForward input = (if i_rangeOrder (ms_input this) = Some DESC then Some False else None)"
proof -
  obtain im where "input = compileInput env this im"
    using getInput_compiled [OF assms] ..
  then show ?thesis by (simp add: compileInput_ScanIndexForward)
qed

lemma no_direction_unchanged:
  "ScanIndexForward input = None \<Longrightarrow> input\<lparr>ScanIndexForward := None\<rparr> = input"
  by (cases input) simp

lemma issued_plain_scan:
  "KeyConditionExpression input = None \<Longrightarrow> ScanIndexForward input = None \<Longrightarrow>
   issued input = (ScanOp, input)"
  by (simp add: issued_def no_direction_unchanged)

lemma sample_dynamo: "dynamo sample_deps = scripted"
  by (simp add: sample_deps_def)

lemma sample_no_key: "KeyConditionExpression (compileInput sample_deps this None) = None"
  by (simp add: compileInput_KeyCondition sample_deps_def)

text \<open>
  Claim C5, as the specification words it, fails for an ascending sort: \<open>sort('ascending')\<close>
  sets \<open>rangeOrder\<close> to \<open>'ASC'\<close>, \<open>getInput\<close> sets \<open>ScanIndexForward\<close> for \<open>'DESC'\<close>
  only, and \<open>page\<close> rejects a scan only when the flag is \<open>false\<close>.  On the search by
  \<open>status\<close>, which compiles to a scan, \<open>ascending()\<close> followed by \<open>exec()\<close> sends the
  scan and returns its page.
\<close>

theorem ascending_scan_counterexample:
  "i_rangeOrder (ms_input (ascending byStatus)) = Some ASC
   \<and> getInput sample_deps (ascending byStatus) = Inr (compileInput sample_deps (ascending byStatus) None)
   \<and> KeyConditionExpression (compileInput sample_deps (ascending byStatus) None) = None
   \<and> exec sample_deps (ascending byStatus) ([Inr (tenItems ''a'' None)], []) =
       (Inr (pageOf sample_deps users (compileInput sample_deps (ascending byStatus) None)
               (tenItems ''a'' None)),
        ([], [(ScanOp, compileInput sample_deps (ascending byStatus) None)]))"
proof -
  let ?search = "ascending byStatus"
  let ?req = "compileInput sample_deps ?search None"
  have fields: "ms_tableClass ?search = users" "i_index (ms_input ?search) = None"
    "ms_filters ?search = [Group [''status'' \<mapsto> Scalar (JStr ''active'')]]"
    "i_rangeOrder (ms_input ?search) = Some ASC"
    by (simp_all add: ascending_def sort_b_def byStatus_fields empty_input_def)
  have compiled: "getInput sample_deps ?search = Inr ?req"
    by (rule status_search_compiles) (simp_all add: fields)
  have kc: "KeyConditionExpression ?req = None"
    by (rule sample_no_key)
  have dir: "ScanIndexForward ?req = None"
    by (simp add: compileInput_ScanIndexForward fields)
  have acc: "accepted ?req" by (simp add: accepted_def dir)
  have "page sample_deps users ([Inr (tenItems ''a'' None)], []) ?req =
          (Inr (pageOf sample_deps users ?req (tenItems ''a'' None)), ?req, ([], [(ScanOp, ?req)]))"
    using page_scripted [OF sample_dynamo acc, of users "tenItems ''a'' None" "[]" "[]"]
    by (simp add: issued_plain_scan [OF kc dir])
  then have "exec sample_deps ?search ([Inr (tenItems ''a'' None)], []) =
       (Inr (pageOf sample_deps users ?req (tenItems ''a'' None)), ([], [(ScanOp, ?req)]))"
    by (simp add: exec_def compiled fields)
  then show ?thesis using fields(4) compiled kc by simp
qed

text \<open>
  Claim C5, amended.  On a request compiled with no key condition, a descending sort
  (\<open>sort('descending')\<close>, \<open>descending()\<close>) raises the usage error before anything is
  sent: \<open>exec()\<close>, \<open>all()\<close> and \<open>minimum()\<close> end with the error and the read
  capability is left as it was.  Any other sort option, an ascending sort among them,
  raises nothing: the request carries no scan direction and is sent as a scan.
\<close>

theorem descending_scan_rejected:
  assumes "getInput env this = Inr input" and "KeyConditionExpression input = None"
  shows "(i_rangeOrder (ms_input this) = Some DESC \<longrightarrow>
            exec env this s = (Inl (Error scanDirectionMessage), s)
            \<and> all_b env this s = Some (Inl (Error scanDirectionMessage), s)
            \<and> minimum env this n s = Some (Inl (Error scanDirectionMessage), s))
       \<and> (i_rangeOrder (ms_input this) \<noteq> Some DESC \<longrightarrow>
            ScanIndexForward input = None
            \<and> exec env this s =
                (case dynamo env s ScanOp input of
                   (Inl ex, s') \<Rightarrow> (Inl (HelpfulError ex (ms_tableClass this) input), s')
                 | (Inr out, s') \<Rightarrow> (Inr (pageOf env (ms_tableClass this) input out), s')))
       \<and> i_rangeOrder (ms_input (descending that)) = Some DESC
       \<and> i_rangeOrder (ms_input (ascending that)) = Some ASC"
proof (intro conjI impI)
  assume desc: "i_rangeOrder (ms_input this) = Some DESC"
  then have dir: "ScanIndexForward input = Some False"
    using getInput_ScanIndexForward [OF assms(1)] by simp
  have rejected: "page env (ms_tableClass this) s input = (Inl (Error scanDirectionMessage), input, s)"
    by (rule page_rejected [OF assms(2) dir])
  show "exec env this s = (Inl (Error scanDirectionMessage), s)"
    by (simp add: exec_def assms(1) rejected)
  show "all_b env this s = Some (Inl (Error scanDirectionMessage), s)"
    unfolding all_b_def by (subst all_loop.simps) (simp add: assms(1) rejected)
  show "minimum env this n s = Some (Inl (Error scanDirectionMessage), s)"
    unfolding minimum_def by (subst minimum_loop.simps) (simp add: assms(1) rejected)
next
  assume asc: "i_rangeOrder (ms_input this) \<noteq> Some DESC"
  then show dir: "ScanIndexForward input = None"
    using getInput_ScanIndexForward [OF assms(1)] by simp
  then have "ScanIndexForward input \<noteq> Some False" by simp
  then show "exec env this s =
                (case dynamo env s ScanOp input of
                   (Inl ex, s') \<Rightarrow> (Inl (HelpfulError ex (ms_tableClass this) input), s')
                 | (Inr out, s') \<Rightarrow> (Inr (pageOf env (ms_tableClass this) input out), s'))"
    by (auto simp: exec_def assms page_scan no_direction_unchanged [OF dir]
             split: prod.splits sum.splits)
next
  show "i_rangeOrder (ms_input (descending that)) = Some DESC"
    by (simp add: descending_def sort_b_def)
  show "i_rangeOrder (ms_input (ascending that)) = Some ASC"
    by (simp add: ascending_def sort_b_def)
qed

theorem descending_scan_rejected_witness:
  "getInput sample_deps (descending byStatus) = Inr (compileInput sample_deps (descending byStatus) None)
   \<and> KeyConditionExpression (compileInput sample_deps (descending byStatus) None) = None
   \<and> exec sample_deps (descending byStatus) ([Inr (tenItems ''a'' None)], []) =
       (Inl (Error scanDirectionMessage), ([Inr (tenItems ''a'' None)], []))
   \<and> all_b sample_deps (descending byStatus) ([Inr (tenItems ''a'' None)], []) =
       Some (Inl (Error scanDirectionMessage), ([Inr (tenItems ''a'' None)], []))"
proof -
  let ?search = "descending byStatus"
  let ?req = "compileInput sample_deps ?search None"
  have fields: "ms_tableClass ?search = users" "i_index (ms_input ?search) = None"
    "ms_filters ?search = [Group [''status'' \<mapsto> Scalar (JStr ''active'')]]"
    "i_rangeOrder (ms_input ?search) = Some DESC"
    by (simp_all add: descending_def sort_b_def byStatus_fields empty_input_def)
  have compiled: "getInput sample_deps ?search = Inr ?req"
    by (rule status_search_compiles) (simp_all add: fields)
  have kc: "KeyConditionExpression ?req = None"
    by (rule sample_no_key)
  show ?thesis
    using descending_scan_rejected [OF compiled kc, of "([Inr (tenItems ''a'' None)], [])" 0 byStatus]
          fields(4) compiled kc
    by simp
qed

lemma pageOf_next [simp]:
  "pageOf env tbl (snd (issued (startingAt token input))) = pageOf env tbl input"
  by (rule ext) (simp add: pageOf_def)

lemma lastEvaluatedKey_pageOf [simp]:
  "lastEvaluatedKey (pageOf env tbl input out) = LastEvaluatedKey out"
  by (simp add: pageOf_def fromDynamoOutput_def)

lemma count_pageOf [simp]: "count (pageOf env tbl input out) = Count out"
  by (simp add: pageOf_def fromDynamoOutput_def)

lemma items_pageOf [simp]:
  "items (pageOf env tbl input out) = map (decode env (ProjectionExpression input \<noteq> None)) (Items out)"
  by (simp add: pageOf_def fromDynamoOutput_def)

lemma page_scripted_carry:
  assumes "dynamo env = scripted" and "accepted input"
  shows "page env tbl (Inr out # rs, log) (carry pg input) =
           (Inr (pageOf env tbl input out), snd (issued (startingAt (token_of pg) input)),
            (rs, log @ [issued (startingAt (token_of pg) input)]))"
proof -
  have "accepted (startingAt (token_of pg) input)" using assms(2) by simp
  from page_scripted [OF assms(1) this, of tbl out rs log]
  show ?thesis by (simp add: carry_startingAt pageOf_def)
qed

lemma all_loop_pages:
  assumes "dynamo env = scripted"
  shows "ps \<noteq> [] \<Longrightarrow> accepted input \<Longrightarrow> more pg \<Longrightarrow>
         \<forall>p \<in> set (butlast ps). LastEvaluatedKey p \<noteq> None \<Longrightarrow> LastEvaluatedKey (last ps) = None \<Longrightarrow>
         all_loop env tbl (map Inr ps @ rest, log) input pg outputs =
           Some (Inr (fromSeveralOutputs tbl (outputs @ map (pageOf env tbl input) ps)),
                 (rest, log @ requests (token_of pg) input ps))"
proof (induction ps arbitrary: input pg log outputs)
  case Nil
  then show ?case by simp
next
  case (Cons p ps)
  let ?sent = "issued (startingAt (token_of pg) input)"
  let ?pg = "pageOf env tbl input p"
  have step: "page env tbl (Inr p # map Inr ps @ rest, log) (carry pg input) =
                (Inr ?pg, snd ?sent, (map Inr ps @ rest, log @ [?sent]))"
    by (rule page_scripted_carry [OF assms Cons.prems(2)])
  have unfold: "all_loop env tbl (map Inr (p # ps) @ rest, log) input pg outputs =
            all_loop env tbl (map Inr ps @ rest, log @ [?sent]) (snd ?sent) (Some ?pg) (outputs @ [?pg])"
    by (subst all_loop.simps) (use step Cons.prems(3) in simp)
  show ?case
  proof (cases "ps = []")
    case True
    then have stop: "\<not> more (Some ?pg)" using Cons.prems(5) by simp
    have "all_loop env tbl (map Inr ps @ rest, log @ [?sent]) (snd ?sent) (Some ?pg) (outputs @ [?pg])
            = Some (Inr (fromSeveralOutputs tbl (outputs @ [?pg])), (map Inr ps @ rest, log @ [?sent]))"
      using stop by (subst all_loop.simps) simp
    with unfold show ?thesis using True by simp
  next
    case False
    then have tok: "LastEvaluatedKey p \<noteq> None"
      and rest_tok: "\<forall>q \<in> set (butlast ps). LastEvaluatedKey q \<noteq> None"
      and last_tok: "LastEvaluatedKey (last ps) = None"
      using Cons.prems(4,5) by auto
    have go: "more (Some ?pg)" using tok by simp
    have "all_loop env tbl (map Inr ps @ rest, log @ [?sent]) (snd ?sent) (Some ?pg) (outputs @ [?pg])
            = Some (Inr (fromSeveralOutputs tbl ((outputs @ [?pg]) @ map (pageOf env tbl (snd ?sent)) ps)),
                 (rest, (log @ [?sent]) @ requests (token_of (Some ?pg)) (snd ?sent) ps))"
      by (rule Cons.IH [OF False _ go rest_tok last_tok]) simp
    with unfold show ?thesis by simp
  qed
qed

lemma minimum_loop_pages:
  assumes "dynamo env = scripted"
  shows "accepted input \<Longrightarrow> more pg \<Longrightarrow>
         \<forall>j < length qs. cnt + sum_list (map Count (take (Suc j) qs)) < n
                          \<and> LastEvaluatedKey (qs ! j) \<noteq> None \<Longrightarrow>
         n \<le> cnt + sum_list (map Count (qs @ [p])) \<or> LastEvaluatedKey p = None \<Longrightarrow>
         minimum_loop env tbl n (map Inr (qs @ [p]) @ rest, log) input pg cnt outputs =
           Some (Inr (fromSeveralOutputs tbl (outputs @ map (pageOf env tbl input) (qs @ [p]))),
                 (rest, log @ requests (token_of pg) input (qs @ [p])))"
proof (induction qs arbitrary: input pg log outputs cnt)
  case Nil
  let ?sent = "issued (startingAt (token_of pg) input)"
  have step: "page env tbl (Inr p # rest, log) (carry pg input) =
                (Inr (pageOf env tbl input p), snd ?sent, (rest, log @ [?sent]))"
    by (rule page_scripted_carry [OF assms Nil.prems(1)])
  show ?case
    by (subst minimum_loop.simps) (use step Nil.prems(2,4) in \<open>auto simp: Let_def\<close>)
next
  case (Cons q qs)
  let ?sent = "issued (startingAt (token_of pg) input)"
  let ?pg = "pageOf env tbl input q"
  have step: "page env tbl (Inr q # map Inr (qs @ [p]) @ rest, log) (carry pg input) =
                (Inr ?pg, snd ?sent, (map Inr (qs @ [p]) @ rest, log @ [?sent]))"
    by (rule page_scripted_carry [OF assms Cons.prems(1)])
  have first: "cnt + Count q < n" "LastEvaluatedKey q \<noteq> None"
    using Cons.prems(3) [rule_format, of 0] by simp_all
  have later: "\<forall>j < length qs. (cnt + Count q) + sum_list (map Count (take (Suc j) qs)) < n
                              \<and> LastEvaluatedKey (qs ! j) \<noteq> None"
  proof (intro allI impI)
    fix j assume "j < length qs"
    then show "(cnt + Count q) + sum_list (map Count (take (Suc j) qs)) < n
                 \<and> LastEvaluatedKey (qs ! j) \<noteq> None"
      using Cons.prems(3) [rule_format, of "Suc j"] by (simp add: add.assoc)
  qed
  have final: "n \<le> (cnt + Count q) + sum_list (map Count (qs @ [p])) \<or> LastEvaluatedKey p = None"
    using Cons.prems(4) by (simp add: add.assoc)
  have go: "more (Some ?pg)" using first(2) by simp
  have "minimum_loop env tbl n (map Inr ((q # qs) @ [p]) @ rest, log) input pg cnt outputs =
          minimum_loop env tbl n (map Inr (qs @ [p]) @ rest, log @ [?sent]) (snd ?sent) (Some ?pg)
            (cnt + Count q) (outputs @ [?pg])"
    by (subst minimum_loop.simps) (use step Cons.prems(2) first in \<open>auto simp: Let_def\<close>)
  also have "\<dots> = Some (Inr (fromSeveralOutputs tbl
                               ((outputs @ [?pg]) @ map (pageOf env tbl (snd ?sent)) (qs @ [p]))),
                 (rest, (log @ [?sent]) @ requests (token_of (Some ?pg)) (snd ?sent) (qs @ [p])))"
    by (rule Cons.IH [OF _ go later final]) simp
  finally show ?case by simp
qed

lemma startKey_issued [simp]:
  "ExclusiveStartKey (snd (issued input)) = ExclusiveStartKey input"
  by (simp add: issued_def)

lemma requests_length [simp]: "length (requests token input ps) = length ps"
  by (induction ps arbitrary: token input) (simp_all add: Let_def)

lemma requests_first:
  "requests token input (p # ps) ! 0 = issued (startingAt token input)"
  by simp

lemma requests_carry:
  "Suc i < length ps \<Longrightarrow> LastEvaluatedKey (ps ! i) \<noteq> None \<Longrightarrow>
   ExclusiveStartKey (snd (requests token input ps ! Suc i)) = LastEvaluatedKey (ps ! i)"
proof (induction ps arbitrary: token input i)
  case Nil
  then show ?case by simp
next
  case (Cons p ps)
  show ?case
  proof (cases i)
    case 0
    then obtain q qs where ps: "ps = q # qs" using Cons.prems(1) by (cases ps) auto
    from Cons.prems(2) 0 obtain k where "LastEvaluatedKey p = Some k" by auto
    then show ?thesis using 0 ps by simp
  next
    case (Suc j)
    then show ?thesis using Cons.IH [of j] Cons.prems by simp
  qed
qed

lemma merged_items:
  "items (fromSeveralOutputs tbl (map (pageOf env tbl input) ps)) =
     concat (map (\<lambda>p. map (decode env (ProjectionExpression input \<noteq> None)) (Items p)) ps)"
  by (simp add: fromSeveralOutputs_def comp_def)

lemma merged_token:
  "ps \<noteq> [] \<Longrightarrow>
   lastEvaluatedKey (fromSeveralOutputs tbl (map (pageOf env tbl input) ps)) = LastEvaluatedKey (last ps)"
  by (cases ps) (simp_all add: fromSeveralOutputs_def last_map)

lemma merged_count:
  "count (fromSeveralOutputs tbl (map (pageOf env tbl input) ps)) = sum_list (map Count ps)"
  by (simp add: fromSeveralOutputs_def comp_def)

text \<open>
  Claim C4.  The store answers with the pages \<open>ps\<close>, of which all but the last carry a
  continuation token.  Then \<open>all()\<close> fetches exactly these pages (the responses after
  them are left), the first request is the compiled one, each later request has the
  previous page's token as its start key, and the result is the merge of all the pages:
  their items in page order, and no continuation token.
\<close>

theorem all_merges_every_page:
  assumes "dynamo env = scripted" and "getInput env this = Inr input" and "accepted input"
    and "ps \<noteq> []" and "\<forall>p \<in> set (butlast ps). LastEvaluatedKey p \<noteq> None"
    and "LastEvaluatedKey (last ps) = None"
  shows "all_b env this (map Inr ps @ rest, log) =
           Some (Inr (fromSeveralOutputs (ms_tableClass this)
                        (map (pageOf env (ms_tableClass this) input) ps)),
                 (rest, log @ requests None input ps))
         \<and> items (fromSeveralOutputs (ms_tableClass this)
                     (map (pageOf env (ms_tableClass this) input) ps)) =
             concat (map (\<lambda>p. map (decode env (ProjectionExpression input \<noteq> None)) (Items p)) ps)
         \<and> lastEvaluatedKey (fromSeveralOutputs (ms_tableClass this)
                                (map (pageOf env (ms_tableClass this) input) ps)) = None
         \<and> requests None input ps ! 0 = issued input
         \<and> (\<forall>i. Suc i < length ps \<longrightarrow>
               ExclusiveStartKey (snd (requests None input ps ! Suc i)) = LastEvaluatedKey (ps ! i))"
proof (intro conjI allI impI)
  show "all_b env this (map Inr ps @ rest, log) =
           Some (Inr (fromSeveralOutputs (ms_tableClass this)
                        (map (pageOf env (ms_tableClass this) input) ps)),
                 (rest, log @ requests None input ps))"
    using all_loop_pages [OF assms(1) assms(4) assms(3) _ assms(5) assms(6),
                          of None "ms_tableClass this" rest log "[]"]
    by (simp add: all_b_def assms(2))
  show "items (fromSeveralOutputs (ms_tableClass this)
                     (map (pageOf env (ms_tableClass this) input) ps)) =
             concat (map (\<lambda>p. map (decode env (ProjectionExpression input \<noteq> None)) (Items p)) ps)"
    by (rule merged_items)
  show "lastEvaluatedKey (fromSeveralOutputs (ms_tableClass this)
                                (map (pageOf env (ms_tableClass this) input) ps)) = None"
    by (simp add: merged_token assms(4) assms(6))
  show "requests None input ps ! 0 = issued input"
    using assms(4) by (cases ps) simp_all
next
  fix i assume i: "Suc i < length ps"
  then have short: "i < length (butlast ps)" by simp
  then have "butlast ps ! i \<in> set (butlast ps)" by (rule nth_mem)
  moreover have "butlast ps ! i = ps ! i" using short by (rule nth_butlast)
  ultimately have "ps ! i \<in> set (butlast ps)" by simp
  then have "LastEvaluatedKey (ps ! i) \<noteq> None" using assms(5) by blast
  then show "ExclusiveStartKey (snd (requests None input ps ! Suc i)) = LastEvaluatedKey (ps ! i)"
    by (rule requests_carry [OF i])
qed


lemma sample_compiled:
  "getInput sample_deps byStatus = Inr (compileInput sample_deps byStatus None)"
  by (rule status_search_compiles) (simp_all add: byStatus_fields empty_input_def)

lemma sample_direction: "ScanIndexForward (compileInput sample_deps byStatus None) = None"
  by (simp add: compileInput_ScanIndexForward byStatus_fields empty_input_def)

lemma sample_accepted: "accepted (compileInput sample_deps byStatus None)"
  by (simp add: accepted_def sample_direction)

lemma sample_issued:
  "issued (compileInput sample_deps byStatus None) = (ScanOp, compileInput sample_deps byStatus None)"
  by (rule issued_plain_scan) (simp_all add: sample_direction sample_no_key)

theorem all_merges_every_page_witness:
  "all_b sample_deps byStatus
     ([Inr (tenItems ''a'' (Some [''id'' \<mapsto> JStr ''a''])), Inr (tenItems ''b'' None)], []) =
     Some (Inr (fromSeveralOutputs users
                  [pageOf sample_deps users (compileInput sample_deps byStatus None)
                     (tenItems ''a'' (Some [''id'' \<mapsto> JStr ''a''])),
                   pageOf sample_deps users (compileInput sample_deps byStatus None)
                     (tenItems ''b'' None)]),
           ([], [(ScanOp, compileInput sample_deps byStatus None),
                 (ScanOp, (compileInput sample_deps byStatus None)
                             \<lparr>ExclusiveStartKey := Some [''id'' \<mapsto> JStr ''a'']\<rparr>)]))
   \<and> items (fromSeveralOutputs users
                [pageOf sample_deps users (compileInput sample_deps byStatus None)
                   (tenItems ''a'' (Some [''id'' \<mapsto> JStr ''a''])),
                 pageOf sample_deps users (compileInput sample_deps byStatus None)
                   (tenItems ''b'' None)]) =
       replicate 10 [''id'' \<mapsto> JStr ''a''] @ replicate 10 [''id'' \<mapsto> JStr ''b'']"
proof -
  let ?ps = "[tenItems ''a'' (Some [''id'' \<mapsto> JStr ''a'']), tenItems ''b'' None]"
  let ?req = "compileInput sample_deps byStatus None"
  have tokens: "\<forall>p \<in> set (butlast ?ps). LastEvaluatedKey p \<noteq> None"
    by (simp add: tenItems_def)
  have final: "LastEvaluatedKey (last ?ps) = None"
    by (simp add: tenItems_def)
  have ne: "?ps \<noteq> []" by simp
  have next_req: "issued (?req\<lparr>ExclusiveStartKey := Some [''id'' \<mapsto> JStr ''a'']\<rparr>) =
                   (ScanOp, ?req\<lparr>ExclusiveStartKey := Some [''id'' \<mapsto> JStr ''a'']\<rparr>)"
    by (rule issued_plain_scan) (simp_all add: sample_direction sample_no_key)
  have sent: "requests None ?req ?ps =
                [(ScanOp, ?req), (ScanOp, ?req\<lparr>ExclusiveStartKey := Some [''id'' \<mapsto> JStr ''a'']\<rparr>)]"
    by (simp add: sample_issued tenItems_def next_req)
  have dec: "decode sample_deps = (\<lambda>tolerant raw. raw)"
    by (simp add: sample_deps_def)
  note run = all_merges_every_page
               [OF sample_dynamo sample_compiled sample_accepted ne tokens final, of "[]" "[]"]
  have "all_b sample_deps byStatus (map Inr ?ps @ [], []) =
          Some (Inr (fromSeveralOutputs (ms_tableClass byStatus)
                       (map (pageOf sample_deps (ms_tableClass byStatus) ?req) ?ps)),
                ([], [] @ requests None ?req ?ps))"
    using run by (rule conjunct1)
  then have first: "all_b sample_deps byStatus (map Inr ?ps, []) =
          Some (Inr (fromSeveralOutputs users (map (pageOf sample_deps users ?req) ?ps)),
                ([], [(ScanOp, ?req),
                      (ScanOp, ?req\<lparr>ExclusiveStartKey := Some [''id'' \<mapsto> JStr ''a'']\<rparr>)]))"
    by (simp only: sent byStatus_fields append_Nil append_Nil2)
  have "items (fromSeveralOutputs (ms_tableClass byStatus)
                 (map (pageOf sample_deps (ms_tableClass byStatus) ?req) ?ps)) =
          concat (map (\<lambda>p. map (decode sample_deps (ProjectionExpression ?req \<noteq> None)) (Items p)) ?ps)"
    using run by (rule conjunct2 [THEN conjunct1])
  then have second: "items (fromSeveralOutputs users (map (pageOf sample_deps users ?req) ?ps)) =
          replicate 10 [''id'' \<mapsto> JStr ''a''] @ replicate 10 [''id'' \<mapsto> JStr ''b'']"
    by (simp add: byStatus_fields dec tenItems_def)
  from first second show ?thesis by simp
qed

text \<open>
  Claim C3.  The store answers with the pages \<open>qs\<close> and then \<open>p\<close>, where after each page
  of \<open>qs\<close> the count gathered so far is below \<open>n\<close> and the page carries a token, and with
  \<open>p\<close> the count reaches \<open>n\<close> or the token is absent.  Then \<open>minimum(n)\<close> fetches exactly
  these pages (the responses after them are left), the first request is the compiled one,
  each later request has the previous page's token as its start key, and the result is
  the merge of the pages fetched.  With three pages of ten items, of which only the first
  two carry a token, \<open>minimum(25)\<close> fetches all three and returns thirty items and no
  token.
\<close>

theorem minimum_stops_when_enough:
  assumes "dynamo env = scripted" and "getInput env this = Inr input" and "accepted input"
  shows "((\<forall>j < length qs. sum_list (map Count (take (Suc j) qs)) < n
                           \<and> LastEvaluatedKey (qs ! j) \<noteq> None)
          \<and> (n \<le> sum_list (map Count (qs @ [p])) \<or> LastEvaluatedKey p = None) \<longrightarrow>
          minimum env this n (map Inr (qs @ [p]) @ rest, log) =
            Some (Inr (fromSeveralOutputs (ms_tableClass this)
                         (map (pageOf env (ms_tableClass this) input) (qs @ [p]))),
                  (rest, log @ requests None input (qs @ [p])))
          \<and> lastEvaluatedKey (fromSeveralOutputs (ms_tableClass this)
                                 (map (pageOf env (ms_tableClass this) input) (qs @ [p])))
              = LastEvaluatedKey p
          \<and> requests None input (qs @ [p]) ! 0 = issued input
          \<and> (\<forall>i < length qs.
                ExclusiveStartKey (snd (requests None input (qs @ [p]) ! Suc i))
                  = LastEvaluatedKey (qs ! i)))
       \<and> (Count p1 = 10 \<and> Count p2 = 10 \<and> Count p3 = 10
          \<and> length (Items p1) = 10 \<and> length (Items p2) = 10 \<and> length (Items p3) = 10
          \<and> LastEvaluatedKey p1 \<noteq> None \<and> LastEvaluatedKey p2 \<noteq> None
          \<and> LastEvaluatedKey p3 = None \<longrightarrow>
          minimum env this 25 (map Inr [p1, p2, p3] @ rest, log) =
            Some (Inr (fromSeveralOutputs (ms_tableClass this)
                         (map (pageOf env (ms_tableClass this) input) [p1, p2, p3])),
                  (rest, log @ requests None input [p1, p2, p3]))
          \<and> length (items (fromSeveralOutputs (ms_tableClass this)
                              (map (pageOf env (ms_tableClass this) input) [p1, p2, p3]))) = 30
          \<and> lastEvaluatedKey (fromSeveralOutputs (ms_tableClass this)
                                 (map (pageOf env (ms_tableClass this) input) [p1, p2, p3])) = None)"
proof -
  have run: "minimum env this m (map Inr (xs @ [x]) @ rest, log) =
            Some (Inr (fromSeveralOutputs (ms_tableClass this)
                         (map (pageOf env (ms_tableClass this) input) (xs @ [x]))),
                  (rest, log @ requests None input (xs @ [x])))"
    if "\<forall>j < length xs. sum_list (map Count (take (Suc j) xs)) < m
                           \<and> LastEvaluatedKey (xs ! j) \<noteq> None"
      and "m \<le> sum_list (map Count (xs @ [x])) \<or> LastEvaluatedKey x = None"
    for m xs x
    using minimum_loop_pages [OF assms(1) assms(3), of None xs 0 m x "ms_tableClass this" rest log "[]"]
          that
    by (simp add: minimum_def assms(2))
  have general: "minimum env this n (map Inr (qs @ [p]) @ rest, log) =
            Some (Inr (fromSeveralOutputs (ms_tableClass this)
                         (map (pageOf env (ms_tableClass this) input) (qs @ [p]))),
                  (rest, log @ requests None input (qs @ [p])))
          \<and> lastEvaluatedKey (fromSeveralOutputs (ms_tableClass this)
                                 (map (pageOf env (ms_tableClass this) input) (qs @ [p])))
              = LastEvaluatedKey p
          \<and> requests None input (qs @ [p]) ! 0 = issued input
          \<and> (\<forall>i < length qs.
                ExclusiveStartKey (snd (requests None input (qs @ [p]) ! Suc i))
                  = LastEvaluatedKey (qs ! i))"
    if before: "\<forall>j < length qs. sum_list (map Count (take (Suc j) qs)) < n
                           \<and> LastEvaluatedKey (qs ! j) \<noteq> None"
      and at: "n \<le> sum_list (map Count (qs @ [p])) \<or> LastEvaluatedKey p = None"
  proof (intro conjI allI impI)
    show "minimum env this n (map Inr (qs @ [p]) @ rest, log) =
            Some (Inr (fromSeveralOutputs (ms_tableClass this)
                         (map (pageOf env (ms_tableClass this) input) (qs @ [p]))),
                  (rest, log @ requests None input (qs @ [p])))"
      by (rule run [OF before at])
    show "lastEvaluatedKey (fromSeveralOutputs (ms_tableClass this)
                                 (map (pageOf env (ms_tableClass this) input) (qs @ [p])))
              = LastEvaluatedKey p"
      using merged_token [of "qs @ [p]" "ms_tableClass this" env input] by simp
    show "requests None input (qs @ [p]) ! 0 = issued input"
      by (cases qs) simp_all
  next
    fix i assume i: "i < length qs"
    then have "LastEvaluatedKey ((qs @ [p]) ! i) \<noteq> None"
      using before by (simp add: nth_append)
    moreover have "Suc i < length (qs @ [p])" using i by simp
    ultimately have "ExclusiveStartKey (snd (requests None input (qs @ [p]) ! Suc i))
                       = LastEvaluatedKey ((qs @ [p]) ! i)"
      by (intro requests_carry)
    then show "ExclusiveStartKey (snd (requests None input (qs @ [p]) ! Suc i))
                  = LastEvaluatedKey (qs ! i)"
      using i by (simp add: nth_append)
  qed
  have scenario: "minimum env this 25 (map Inr [p1, p2, p3] @ rest, log) =
            Some (Inr (fromSeveralOutputs (ms_tableClass this)
                         (map (pageOf env (ms_tableClass this) input) [p1, p2, p3])),
                  (rest, log @ requests None input [p1, p2, p3]))
          \<and> length (items (fromSeveralOutputs (ms_tableClass this)
                              (map (pageOf env (ms_tableClass this) input) [p1, p2, p3]))) = 30
          \<and> lastEvaluatedKey (fromSeveralOutputs (ms_tableClass this)
                                 (map (pageOf env (ms_tableClass this) input) [p1, p2, p3])) = None"
    if h: "Count p1 = 10 \<and> Count p2 = 10 \<and> Count p3 = 10
          \<and> length (Items p1) = 10 \<and> length (Items p2) = 10 \<and> length (Items p3) = 10
          \<and> LastEvaluatedKey p1 \<noteq> None \<and> LastEvaluatedKey p2 \<noteq> None
          \<and> LastEvaluatedKey p3 = None"
  proof -
    have before: "\<forall>j < length [p1, p2]. sum_list (map Count (take (Suc j) [p1, p2])) < 25
                           \<and> LastEvaluatedKey ([p1, p2] ! j) \<noteq> None"
      using h by (auto simp: less_Suc_eq)
    have at: "25 \<le> sum_list (map Count ([p1, p2] @ [p3])) \<or> LastEvaluatedKey p3 = None"
      using h by simp
    have "minimum env this 25 (map Inr ([p1, p2] @ [p3]) @ rest, log) =
            Some (Inr (fromSeveralOutputs (ms_tableClass this)
                         (map (pageOf env (ms_tableClass this) input) ([p1, p2] @ [p3]))),
                  (rest, log @ requests None input ([p1, p2] @ [p3])))"
      by (rule run [OF before at])
    moreover have "length (items (fromSeveralOutputs (ms_tableClass this)
                              (map (pageOf env (ms_tableClass this) input) [p1, p2, p3]))) = 30"
      using h merged_items [of "ms_tableClass this" env input "[p1, p2, p3]"] by simp
    moreover have "lastEvaluatedKey (fromSeveralOutputs (ms_tableClass this)
                                 (map (pageOf env (ms_tableClass this) input) [p1, p2, p3])) = None"
      using h merged_token [of "[p1, p2, p3]" "ms_tableClass this" env input] by simp
    ultimately show ?thesis by simp
  qed
  from general scenario show ?thesis by blast
qed

lemma sample_next_issued:
  "issued ((compileInput sample_deps byStatus None)\<lparr>ExclusiveStartKey := Some k\<rparr>) =
     (ScanOp, (compileInput sample_deps byStatus None)\<lparr>ExclusiveStartKey := Some k\<rparr>)"
  by (rule issued_plain_scan) (simp_all add: sample_direction sample_no_key)

theorem minimum_stops_when_enough_witness:
  "minimum sample_deps byStatus 25
     ([Inr (tenItems ''a'' (Some [''id'' \<mapsto> JStr ''a''])),
       Inr (tenItems ''b'' (Some [''id'' \<mapsto> JStr ''b''])),
       Inr (tenItems ''c'' None)], []) =
     Some (Inr (fromSeveralOutputs users
                  [pageOf sample_deps users (compileInput sample_deps byStatus None)
                     (tenItems ''a'' (Some [''id'' \<mapsto> JStr ''a''])),
                   pageOf sample_deps users (compileInput sample_deps byStatus None)
                     (tenItems ''b'' (Some [''id'' \<mapsto> JStr ''b''])),
                   pageOf sample_deps users (compileInput sample_deps byStatus None)
                     (tenItems ''c'' None)]),
           ([], [(ScanOp, compileInput sample_deps byStatus None),
                 (ScanOp, (compileInput sample_deps byStatus None)
                             \<lparr>ExclusiveStartKey := Some [''id'' \<mapsto> JStr ''a'']\<rparr>),
                 (ScanOp, (compileInput sample_deps byStatus None)
                             \<lparr>ExclusiveStartKey := Some [''id'' \<mapsto> JStr ''b'']\<rparr>)]))
   \<and> length (items (fromSeveralOutputs users
                  [pageOf sample_deps users (compileInput sample_deps byStatus None)
                     (tenItems ''a'' (Some [''id'' \<mapsto> JStr ''a''])),
                   pageOf sample_deps users (compileInput sample_deps byStatus None)
                     (tenItems ''b'' (Some [''id'' \<mapsto> JStr ''b''])),
                   pageOf sample_deps users (compileInput sample_deps byStatus None)
                     (tenItems ''c'' None)])) = 30
   \<and> lastEvaluatedKey (fromSeveralOutputs users
                  [pageOf sample_deps users (compileInput sample_deps byStatus None)
                     (tenItems ''a'' (Some [''id'' \<mapsto> JStr ''a''])),
                   pageOf sample_deps users (compileInput sample_deps byStatus None)
                     (tenItems ''b'' (Some [''id'' \<mapsto> JStr ''b''])),
                   pageOf sample_deps users (compileInput sample_deps byStatus None)
                     (tenItems ''c'' None)]) = None
   \<and> minimum sample_deps byStatus 15
     ([Inr (tenItems ''a'' (Some [''id'' \<mapsto> JStr ''a''])),
       Inr (tenItems ''b'' (Some [''id'' \<mapsto> JStr ''b''])),
       Inr (tenItems ''c'' None)], []) =
     Some (Inr (fromSeveralOutputs users
                  [pageOf sample_deps users (compileInput sample_deps byStatus None)
                     (tenItems ''a'' (Some [''id'' \<mapsto> JStr ''a''])),
                   pageOf sample_deps users (compileInput sample_deps byStatus None)
                     (tenItems ''b'' (Some [''id'' \<mapsto> JStr ''b'']))]),
           ([Inr (tenItems ''c'' None)],
            [(ScanOp, compileInput sample_deps byStatus None),
             (ScanOp, (compileInput sample_deps byStatus None)
                         \<lparr>ExclusiveStartKey := Some [''id'' \<mapsto> JStr ''a'']\<rparr>)]))"
proof -
  let ?a = "tenItems ''a'' (Some [''id'' \<mapsto> JStr ''a''])"
  let ?b = "tenItems ''b'' (Some [''id'' \<mapsto> JStr ''b''])"
  let ?c = "tenItems ''c'' None"
  let ?req = "compileInput sample_deps byStatus None"
  note inst = minimum_stops_when_enough [OF sample_dynamo sample_compiled sample_accepted]
  have tok: "LastEvaluatedKey ?a = Some [''id'' \<mapsto> JStr ''a'']"
    "LastEvaluatedKey ?b = Some [''id'' \<mapsto> JStr ''b'']" "LastEvaluatedKey ?c = None"
    by (simp_all add: tenItems_def)
  have cnt: "Count ?a = 10" "Count ?b = 10" "Count ?c = 10"
    by (simp_all add: tenItems_def)
  have len: "length (Items ?a) = 10" "length (Items ?b) = 10" "length (Items ?c) = 10"
    by (simp_all add: tenItems_def)
  have sent3: "requests None ?req [?a, ?b, ?c] =
                [(ScanOp, ?req),
                 (ScanOp, ?req\<lparr>ExclusiveStartKey := Some [''id'' \<mapsto> JStr ''a'']\<rparr>),
                 (ScanOp, ?req\<lparr>ExclusiveStartKey := Some [''id'' \<mapsto> JStr ''b'']\<rparr>)]"
    by (simp add: sample_issued sample_next_issued tok)
  have sent2: "requests None ?req ([?a] @ [?b]) =
                [(ScanOp, ?req),
                 (ScanOp, ?req\<lparr>ExclusiveStartKey := Some [''id'' \<mapsto> JStr ''a'']\<rparr>)]"
    by (simp add: sample_issued sample_next_issued tok)
  have scenario: "Count ?a = 10 \<and> Count ?b = 10 \<and> Count ?c = 10
          \<and> length (Items ?a) = 10 \<and> length (Items ?b) = 10 \<and> length (Items ?c) = 10
          \<and> LastEvaluatedKey ?a \<noteq> None \<and> LastEvaluatedKey ?b \<noteq> None
          \<and> LastEvaluatedKey ?c = None"
    by (simp add: tok cnt len)
  have enough: "(\<forall>j < length [?a]. sum_list (map Count (take (Suc j) [?a])) < 15
                           \<and> LastEvaluatedKey ([?a] ! j) \<noteq> None)
          \<and> (15 \<le> sum_list (map Count ([?a] @ [?b])) \<or> LastEvaluatedKey ?b = None)"
    by (simp add: tok cnt)
  from inst [THEN conjunct2, rule_format, OF scenario, of "[]" "[]"]
  have part1: "minimum sample_deps byStatus 25 ([Inr ?a, Inr ?b, Inr ?c], []) =
            Some (Inr (fromSeveralOutputs users [pageOf sample_deps users ?req ?a,
                         pageOf sample_deps users ?req ?b, pageOf sample_deps users ?req ?c]),
                  ([], [(ScanOp, ?req),
                 (ScanOp, ?req\<lparr>ExclusiveStartKey := Some [''id'' \<mapsto> JStr ''a'']\<rparr>),
                 (ScanOp, ?req\<lparr>ExclusiveStartKey := Some [''id'' \<mapsto> JStr ''b'']\<rparr>)]))
          \<and> length (items (fromSeveralOutputs users [pageOf sample_deps users ?req ?a,
                         pageOf sample_deps users ?req ?b, pageOf sample_deps users ?req ?c])) = 30
          \<and> lastEvaluatedKey (fromSeveralOutputs users [pageOf sample_deps users ?req ?a,
                         pageOf sample_deps users ?req ?b, pageOf sample_deps users ?req ?c]) = None"
    unfolding sent3 byStatus_fields by simp
  from inst [THEN conjunct1, rule_format, OF enough, THEN conjunct1, of "[Inr ?c]" "[]"]
  have part2: "minimum sample_deps byStatus 15 ([Inr ?a, Inr ?b, Inr ?c], []) =
     Some (Inr (fromSeveralOutputs users [pageOf sample_deps users ?req ?a,
                   pageOf sample_deps users ?req ?b]),
           ([Inr ?c], [(ScanOp, ?req),
             (ScanOp, ?req\<lparr>ExclusiveStartKey := Some [''id'' \<mapsto> JStr ''a'']\<rparr>)]))"
    unfolding sent2 byStatus_fields by simp
  from part1 part2 show ?thesis by simp
qed

theorem page_failure_aborts_witness:
  "all_b sample_deps byStatus
     ([Inr (tenItems ''a'' (Some [''id'' \<mapsto> JStr ''a''])), Inl (DynamoError ''throttled'')], []) =
     Some (Inl (HelpfulError (DynamoError ''throttled'') users
                  ((compileInput sample_deps byStatus None)
                     \<lparr>ExclusiveStartKey := Some [''id'' \<mapsto> JStr ''a'']\<rparr>)),
           ([], [(ScanOp, compileInput sample_deps byStatus None),
                 (ScanOp, (compileInput sample_deps byStatus None)
                             \<lparr>ExclusiveStartKey := Some [''id'' \<mapsto> JStr ''a'']\<rparr>)]))"
proof -
  let ?a = "tenItems ''a'' (Some [''id'' \<mapsto> JStr ''a''])"
  let ?req = "compileInput sample_deps byStatus None"
  let ?req' = "?req\<lparr>ExclusiveStartKey := Some [''id'' \<mapsto> JStr ''a'']\<rparr>"
  let ?pg = "pageOf sample_deps users ?req ?a"
  let ?ex = "DynamoError ''throttled''"
  have tok: "LastEvaluatedKey ?a = Some [''id'' \<mapsto> JStr ''a'']"
    by (simp add: tenItems_def)
  have first: "page sample_deps users ([Inr ?a, Inl ?ex], []) (carry None ?req) =
                 (Inr ?pg, ?req, ([Inl ?ex], [(ScanOp, ?req)]))"
    using page_scripted_carry [OF sample_dynamo sample_accepted, of users ?a "[Inl ?ex]" "[]" None]
    by (simp add: sample_issued)
  have start: "all_b sample_deps byStatus ([Inr ?a, Inl ?ex], []) =
                 all_loop sample_deps users ([Inl ?ex], [(ScanOp, ?req)]) ?req (Some ?pg) [?pg]"
    unfolding all_b_def
    by (subst all_loop.simps) (use first in \<open>simp add: sample_compiled byStatus_fields\<close>)
  have carried: "carry (Some ?pg) ?req = ?req'"
    by (simp add: tok)
  have fails: "more (Some ?pg) \<and> accepted ?req
        \<and> dynamo sample_deps ([Inl ?ex], [(ScanOp, ?req)])
             (fst (issued (carry (Some ?pg) ?req))) (snd (issued (carry (Some ?pg) ?req)))
           = (Inl ?ex, ([], [(ScanOp, ?req), (ScanOp, ?req')]))"
    unfolding carried sample_next_issued
    by (simp add: tok sample_accepted sample_dynamo scripted_next)
  from page_failure_aborts [THEN conjunct2, THEN conjunct2, rule_format, OF fails, THEN conjunct1,
                            of users "[?pg]"]
  have "all_loop sample_deps users ([Inl ?ex], [(ScanOp, ?req)]) ?req (Some ?pg) [?pg] =
          Some (Inl (HelpfulError ?ex users ?req'), ([], [(ScanOp, ?req), (ScanOp, ?req')]))"
    unfolding carried sample_next_issued by simp
  with start show ?thesis by simp
qed

end
